theory Spec2Isabelle
  imports Main "HOL-Library.Word"
begin

section \<open>Image recompression (compress\_jpegs.py)\<close>

text \<open>
  A shallow embedding of \<^verbatim>\<open>compress_jpegs.py\<close>. The program walks a source directory,
  re-encodes every JPEG and PNG into a destination directory and keeps the original
  bytes whenever the re-encoded file came out larger.

  What the program only calls (the Pillow decoder and encoders, the directory listing,
  which file a path names, the clock, whether a path can be deleted or written) is a
  field of the record \<open>env\<close>; what it changes (the files on disk, the progress callback's invocations, the
  encoder calls) is the record \<open>world\<close>, passed through every operation and returned
  with the result. An exception is a value \<open>Inl e\<close>; it is returned together with the
  world as the exception left it.
\<close>

subsection \<open>Bytes, errors, files\<close>

type_synonym bytes = "8 word list"

datatype error =
    UnidentifiedImageError  \<comment> \<open>PIL: the file cannot be decoded\<close>
  | FileNotFoundError
  | PermissionError
  | SameFileError           \<comment> \<open>shutil: source and destination are the same file\<close>
  | FileExistsError
  | OSError
  | TypeError
  | ValueError

text \<open>The classes an \<^verbatim>\<open>except OSError\<close> clause catches: \<^verbatim>\<open>OSError\<close> and its subclasses.\<close>

fun is_OSError :: "error \<Rightarrow> bool" where
  "is_OSError TypeError = False"
| "is_OSError ValueError = False"
| "is_OSError _ = True"

text \<open>
  A regular file: its bytes, and its modification time as the one piece of metadata
  that \<^verbatim>\<open>shutil.copy2\<close> carries over and a fresh write does not.
\<close>

record regfile =
  content :: bytes
  mtime :: nat

subsection \<open>Images as Pillow presents them\<close>

text \<open>
  \<open>mode\<close> is \<^verbatim>\<open>img.mode\<close>; \<open>alpha\<close> holds the values of band \<^verbatim>\<open>A\<close>, one per pixel
  (read only for the modes that have the band); \<open>colour\<close> holds the other bands;
  \<open>info\<close> is the dictionary \<^verbatim>\<open>img.info\<close>.
\<close>

record image =
  mode :: string
  alpha :: "8 word list"
  colour :: "8 word list"
  info :: "string \<rightharpoonup> bytes"

text \<open>One call of \<^verbatim>\<open>img.save\<close>, with the keyword arguments the program passes.\<close>

datatype save_call =
    SavePNG string image bool nat
      \<comment> \<open>path, image, \<^verbatim>\<open>optimize\<close>, \<^verbatim>\<open>compress_level\<close>\<close>
  | SaveJPEG string image int bool bool "bytes option" "bytes option"
      \<comment> \<open>path, image, \<^verbatim>\<open>quality\<close>, \<^verbatim>\<open>optimize\<close>, \<^verbatim>\<open>progressive\<close>, \<^verbatim>\<open>exif\<close>, \<^verbatim>\<open>icc_profile\<close>\<close>

subsection \<open>The environment and the world\<close>

record env =
  listdir :: "string \<Rightarrow> string list option"
    \<comment> \<open>\<^verbatim>\<open>os.listdir\<close>; \<open>None\<close> when the path is not a readable directory\<close>
  isdir :: "string \<Rightarrow> bool"
  realpath :: "string \<Rightarrow> string"
    \<comment> \<open>the file a path names: two paths name the same file exactly when this is equal\<close>
  decode :: "bytes \<Rightarrow> image option"
    \<comment> \<open>\<^verbatim>\<open>Image.open\<close> and the loading of the pixels; \<open>None\<close> when Pillow cannot decode\<close>
  rgb_pixels :: "image \<Rightarrow> 8 word list"
    \<comment> \<open>the pixel data of \<^verbatim>\<open>img.convert("RGB")\<close>\<close>
  png_encode :: "image \<Rightarrow> bool \<Rightarrow> nat \<Rightarrow> error + bytes"
  jpeg_encode :: "image \<Rightarrow> int \<Rightarrow> bool \<Rightarrow> bool \<Rightarrow> bytes \<Rightarrow> bytes option \<Rightarrow> error + bytes"
    \<comment> \<open>image, \<^verbatim>\<open>quality\<close>, \<^verbatim>\<open>optimize\<close>, \<^verbatim>\<open>progressive\<close>, the EXIF bytes, \<^verbatim>\<open>icc_profile\<close>\<close>
  now :: nat
    \<comment> \<open>the modification time a freshly written file gets\<close>
  remove_fails :: "string \<Rightarrow> bool"
    \<comment> \<open>paths on which \<^verbatim>\<open>os.remove\<close> raises \<^verbatim>\<open>PermissionError\<close>\<close>
  unwritable :: "string \<Rightarrow> bool"
    \<comment> \<open>paths that cannot be opened for writing\<close>
  box_sees_exc :: bool
    \<comment> \<open>whether Tk runs the scheduled error box before the worker leaves its \<^verbatim>\<open>except\<close> block\<close>

text \<open>
  \<open>fs\<close> maps a file, named by the \<open>realpath\<close> of any of its paths, to what is stored
  there, so that another spelling of a path or a link to a folder reaches the same
  file; directories are implicit. \<open>cb_calls\<close> lists the invocations of the
  progress callback in order, each as (first argument, second argument, whether
  \<^verbatim>\<open>step=True\<close> was passed). \<open>saves\<close> lists the successful \<^verbatim>\<open>img.save\<close> calls in order.
\<close>

record world =
  fs :: "string \<rightharpoonup> regfile"
  cb_calls :: "(nat \<times> nat \<times> bool) list"
  saves :: "save_call list"

subsection \<open>Path helpers (posixpath)\<close>

text \<open>\<^verbatim>\<open>str.lower\<close>, on the ASCII letters.\<close>

definition lower_char :: "char \<Rightarrow> char" where
  "lower_char c =
     (case map_of (zip ''ABCDEFGHIJKLMNOPQRSTUVWXYZ'' ''abcdefghijklmnopqrstuvwxyz'') c of
        None \<Rightarrow> c
      | Some l \<Rightarrow> l)"

definition lower :: "string \<Rightarrow> string" where
  "lower s = map lower_char s"

text \<open>\<^verbatim>\<open>p.rfind(c)\<close>: the index of the last occurrence, or -1.\<close>

fun rfind_from :: "char \<Rightarrow> string \<Rightarrow> int \<Rightarrow> int \<Rightarrow> int" where
  "rfind_from c [] i found = found"
| "rfind_from c (x # xs) i found = rfind_from c xs (i + 1) (if x = c then i else found)"

definition rfind :: "string \<Rightarrow> char \<Rightarrow> int" where
  "rfind p c = rfind_from c p 0 (- 1)"

text \<open>\<^verbatim>\<open>os.path.basename\<close>: \<^verbatim>\<open>i = p.rfind('/') + 1; return p[i:]\<close>.\<close>

definition basename :: "string \<Rightarrow> string" where
  "basename p = drop (nat (rfind p CHR ''/'' + 1)) p"

text \<open>
  \<^verbatim>\<open>os.path.splitext\<close>: the extension starts at the last dot that follows the last
  separator, unless only dots stand between the separator and that dot.
\<close>

definition splitext :: "string \<Rightarrow> string \<times> string" where
  "splitext p =
     (let sepIndex = rfind p CHR ''/'';
          dotIndex = rfind p CHR ''.''
      in if dotIndex > sepIndex \<and>
            list_ex (\<lambda>c. c \<noteq> CHR ''.'')
              (take (nat (dotIndex - (sepIndex + 1))) (drop (nat (sepIndex + 1)) p))
         then (take (nat dotIndex) p, drop (nat dotIndex) p)
         else (p, []))"

text \<open>
  \<^verbatim>\<open>os.path.join(a, b)\<close>: \<^verbatim>\<open>b\<close> alone when it is absolute, no separator added when
  \<^verbatim>\<open>a\<close> is empty or ends with one.
\<close>

definition join :: "string \<Rightarrow> string \<Rightarrow> string" where
  "join a b =
     (if b \<noteq> [] \<and> hd b = CHR ''/'' then b
      else if a = [] \<or> last a = CHR ''/'' then a @ b
      else a @ ''/'' @ b)"

subsection \<open>File system operations\<close>

definition isfile :: "env \<Rightarrow> world \<Rightarrow> string \<Rightarrow> bool" where
  "isfile env w p = (fs w (realpath env p) \<noteq> None)"

definition getsize :: "env \<Rightarrow> world \<Rightarrow> string \<Rightarrow> error + nat" where
  "getsize env w p =
     (case fs w (realpath env p) of
        None \<Rightarrow> Inl FileNotFoundError
      | Some f \<Rightarrow> Inr (length (content f)))"

text \<open>Writing the bytes of a file, new or in the place of what was there.\<close>

definition write_file :: "env \<Rightarrow> string \<Rightarrow> bytes \<Rightarrow> world \<Rightarrow> world" where
  "write_file env p bs w =
     w\<lparr>fs := (fs w)(realpath env p \<mapsto> \<lparr>content = bs, mtime = now env\<rparr>)\<rparr>"

definition os_remove :: "env \<Rightarrow> string \<Rightarrow> world \<Rightarrow> (error + unit) \<times> world" where
  "os_remove env p w =
     (if fs w (realpath env p) = None then (Inl FileNotFoundError, w)
      else if remove_fails env p then (Inl PermissionError, w)
      else (Inr (), w\<lparr>fs := (fs w)(realpath env p := None)\<rparr>))"

text \<open>
  \<^verbatim>\<open>shutil.copy2(src, dst)\<close>: the bytes and the metadata of \<^verbatim>\<open>src\<close> are written to
  \<^verbatim>\<open>dst\<close>; it raises when \<^verbatim>\<open>src\<close> is missing, when both paths name the same file
  (\<^verbatim>\<open>os.path.samefile\<close>, not a comparison of the strings) and when \<^verbatim>\<open>dst\<close> cannot be
  written.
\<close>

definition copy2 :: "env \<Rightarrow> string \<Rightarrow> string \<Rightarrow> world \<Rightarrow> (error + unit) \<times> world" where
  "copy2 env src dst w =
     (case fs w (realpath env src) of
        None \<Rightarrow> (Inl FileNotFoundError, w)
      | Some f \<Rightarrow>
          if realpath env src = realpath env dst then (Inl SameFileError, w)
          else if unwritable env dst then (Inl PermissionError, w)
          else (Inr (), w\<lparr>fs := (fs w)(realpath env dst \<mapsto> f)\<rparr>))"

subsection \<open>Pillow operations\<close>

text \<open>
  \<^verbatim>\<open>Image.open(path)\<close> with the later loading of the pixel data: the file is read
  and decoded, and either step may raise.
\<close>

definition image_open :: "env \<Rightarrow> world \<Rightarrow> string \<Rightarrow> error + image" where
  "image_open env w path =
     (case fs w (realpath env path) of
        None \<Rightarrow> Inl FileNotFoundError
      | Some f \<Rightarrow>
          (case decode env (content f) of
             None \<Rightarrow> Inl UnidentifiedImageError
           | Some img \<Rightarrow> Inr img))"

text \<open>
  \<^verbatim>\<open>band.getextrema()\<close>: the minimum and the maximum of a single band; Pillow returns
  \<^verbatim>\<open>None\<close> for an image without pixels.
\<close>

fun getextrema :: "8 word list \<Rightarrow> (8 word \<times> 8 word) option" where
  "getextrema [] = None"
| "getextrema (x # xs) = Some (fold min xs x, fold max xs x)"

text \<open>
  \<^verbatim>\<open>img.convert("RGB")\<close>: a copy in mode RGB, without an alpha band; the \<^verbatim>\<open>info\<close>
  dictionary is carried over to the copy.
\<close>

definition convert_RGB :: "env \<Rightarrow> image \<Rightarrow> image" where
  "convert_RGB env img = img\<lparr>mode := ''RGB'', alpha := [], colour := rgb_pixels env img\<rparr>"

text \<open>
  \<^verbatim>\<open>Image.save\<close> opens the target with mode \<^verbatim>\<open>w+b\<close>, which creates the file or empties
  it, and only then runs the format's writer. When the writer raises, Pillow closes
  the file and removes it again if the open had created it (going on when that
  removal is refused); a file that was there before stays, empty.
\<close>

definition save_failed :: "env \<Rightarrow> string \<Rightarrow> world \<Rightarrow> world" where
  "save_failed env p w =
     (if fs w (realpath env p) = None \<and> \<not> remove_fails env p then w
      else write_file env p [] w)"

text \<open>\<^verbatim>\<open>img.save(out_path, format="PNG", optimize=..., compress_level=...)\<close>.\<close>

definition save_png :: "env \<Rightarrow> string \<Rightarrow> image \<Rightarrow> bool \<Rightarrow> nat \<Rightarrow> world \<Rightarrow> (error + unit) \<times> world" where
  "save_png env out_path img optimize compress_level w =
     (if unwritable env out_path then (Inl PermissionError, w)
      else case png_encode env img optimize compress_level of
             Inl e \<Rightarrow> (Inl e, save_failed env out_path w)
           | Inr bs \<Rightarrow>
               (Inr (), (write_file env out_path bs w)
                  \<lparr>saves := saves w @ [SavePNG out_path img optimize compress_level]\<rparr>))"

text \<open>
  \<^verbatim>\<open>img.save(out_path, format="JPEG", quality=..., optimize=..., progressive=..., exif=..., icc_profile=...)\<close>.
  Pillow's JPEG writer takes the length of \<^verbatim>\<open>exif\<close> before it encodes, so that
  \<^verbatim>\<open>exif=None\<close> raises \<^verbatim>\<open>TypeError\<close>; \<^verbatim>\<open>icc_profile=None\<close> is accepted and stands
  for no profile.
\<close>

definition save_jpeg ::
  "env \<Rightarrow> string \<Rightarrow> image \<Rightarrow> int \<Rightarrow> bool \<Rightarrow> bool \<Rightarrow> bytes option \<Rightarrow> bytes option \<Rightarrow> world
     \<Rightarrow> (error + unit) \<times> world" where
  "save_jpeg env out_path img quality optimize progressive exif icc w =
     (if unwritable env out_path then (Inl PermissionError, w)
      else case (case exif of
                   None \<Rightarrow> Inl TypeError
                 | Some exif_bytes \<Rightarrow>
                     jpeg_encode env img quality optimize progressive exif_bytes icc) of
             Inl e \<Rightarrow> (Inl e, save_failed env out_path w)
           | Inr bs \<Rightarrow>
               (Inr (), (write_file env out_path bs w)
                  \<lparr>saves := saves w @ [SaveJPEG out_path img quality optimize progressive exif icc]\<rparr>))"

subsection \<open>\<^verbatim>\<open>has_transparency\<close>\<close>

text \<open>
  \<^verbatim>\<open>
  def has_transparency(img):
      if img.mode in ("RGBA", "LA"):
          alpha = img.getchannel("A")
          return alpha.getextrema()[0] < 255
      if img.mode == "P":
          return "transparency" in img.info
      return False
  \<close>
  Indexing the \<^verbatim>\<open>None\<close> that \<^verbatim>\<open>getextrema\<close> returns for an image without pixels
  raises \<^verbatim>\<open>TypeError\<close>.
\<close>

definition has_transparency :: "image \<Rightarrow> error + bool" where
  "has_transparency img =
     (if mode img \<in> set [''RGBA'', ''LA'']
      then (case getextrema (alpha img) of
              None \<Rightarrow> Inl TypeError
            | Some ex \<Rightarrow> Inr (fst ex < 255))
      else if mode img = ''P'' then Inr (info img ''transparency'' \<noteq> None)
      else Inr False)"

subsection \<open>The loop body of \<^verbatim>\<open>compress_dir_with_progress\<close>\<close>

text \<open>
  Lines 50 to 59: the routing of a \<^verbatim>\<open>.png\<close> source.
  \<^verbatim>\<open>
  if ext == ".png":
      if has_transparency(img):
          out_path = os.path.join(dst_dir, base + ".png")
          img.save(out_path, format="PNG", optimize=True, compress_level=9)
          out_is_jpeg = False
      else:
          out_path = os.path.join(dst_dir, base + ".jpg")
          if img.mode not in ("RGB", "L"):
              img = img.convert("RGB")
          out_is_jpeg = True
  \<close>
  The result is the triple of the local variables \<^verbatim>\<open>out_path\<close>, \<^verbatim>\<open>out_is_jpeg\<close> and
  \<^verbatim>\<open>img\<close> after the block.
\<close>

definition png_branch ::
  "env \<Rightarrow> string \<Rightarrow> string \<Rightarrow> string \<Rightarrow> string \<Rightarrow> bool \<Rightarrow> image \<Rightarrow> world
     \<Rightarrow> (error + string \<times> bool \<times> image) \<times> world" where
  "png_branch env dst_dir base ext out_path out_is_jpeg img w =
     (if ext = ''.png'' then
        (case has_transparency img of
           Inl e \<Rightarrow> (Inl e, w)
         | Inr True \<Rightarrow>
             (let out_path = join dst_dir (base @ ''.png'') in
              case save_png env out_path img True 9 w of
                (Inl e, w') \<Rightarrow> (Inl e, w')
              | (Inr _, w') \<Rightarrow> (Inr (out_path, False, img), w'))
         | Inr False \<Rightarrow>
             (let out_path = join dst_dir (base @ ''.jpg'');
                  img = (if mode img \<notin> set [''RGB'', ''L''] then convert_RGB env img else img)
              in (Inr (out_path, True, img), w)))
      else (Inr (out_path, out_is_jpeg, img), w))"

text \<open>
  Lines 44 to 74: the file is opened, routed, converted and encoded.
  \<^verbatim>\<open>
  name = os.path.basename(path)
  base, ext = os.path.splitext(name)
  ext = ext.lower()
  out_path = os.path.join(dst_dir, name)
  out_is_jpeg = ext in (".jpg", ".jpeg")
  with Image.open(path) as img:
      (lines 50 to 59)
      if out_is_jpeg:
          if img.mode not in ("RGB", "L"):
              img = img.convert("RGB")
      exif = img.info.get("exif")
      icc = img.info.get("icc_profile")
      if out_is_jpeg:
          img.save(out_path, format="JPEG", quality=quality, optimize=True,
                   progressive=True, exif=exif, icc_profile=icc)
  \<close>
  The result is \<^verbatim>\<open>out_path\<close>.
\<close>

definition transcode :: "env \<Rightarrow> string \<Rightarrow> int \<Rightarrow> string \<Rightarrow> world \<Rightarrow> (error + string) \<times> world" where
  "transcode env dst_dir quality path w =
     (let name = basename path;
          base = fst (splitext name);
          ext = lower (snd (splitext name));
          out_path = join dst_dir name;
          out_is_jpeg = (ext \<in> set [''.jpg'', ''.jpeg''])
      in case image_open env w path of
           Inl e \<Rightarrow> (Inl e, w)
         | Inr img \<Rightarrow>
             (case png_branch env dst_dir base ext out_path out_is_jpeg img w of
                (Inl e, w1) \<Rightarrow> (Inl e, w1)
              | (Inr (out_path, out_is_jpeg, img), w1) \<Rightarrow>
                  (let img = (if out_is_jpeg \<and> mode img \<notin> set [''RGB'', ''L'']
                              then convert_RGB env img else img);
                       exif = info img ''exif'';
                       icc = info img ''icc_profile''
                   in if out_is_jpeg then
                        (case save_jpeg env out_path img quality True True exif icc w1 of
                           (Inl e, w2) \<Rightarrow> (Inl e, w2)
                         | (Inr _, w2) \<Rightarrow> (Inr out_path, w2))
                      else (Inr out_path, w1))))"

text \<open>
  Lines 75 to 83: the size guard.
  \<^verbatim>\<open>
  # If something went wrong and output is bigger, keep original.
  if os.path.getsize(out_path) > os.path.getsize(path):
      if out_path != os.path.join(dst_dir, name):
          try:
              os.remove(out_path)
          except OSError:
              pass
          out_path = os.path.join(dst_dir, name)
      shutil.copy2(path, out_path)
  \<close>
  The result is \<^verbatim>\<open>out_path\<close> after the block.
\<close>

definition remove_ignoring_OSError :: "env \<Rightarrow> string \<Rightarrow> world \<Rightarrow> (error + unit) \<times> world" where
  "remove_ignoring_OSError env p w =
     (case os_remove env p w of
        (Inl e, w') \<Rightarrow> if is_OSError e then (Inr (), w') else (Inl e, w')
      | (Inr u, w') \<Rightarrow> (Inr u, w'))"

definition guard :: "env \<Rightarrow> string \<Rightarrow> string \<Rightarrow> string \<Rightarrow> world \<Rightarrow> (error + string) \<times> world" where
  "guard env dst_dir path out_path w =
     (let name = basename path in
      case getsize env w out_path of
        Inl e \<Rightarrow> (Inl e, w)
      | Inr out_size \<Rightarrow>
          (case getsize env w path of
             Inl e \<Rightarrow> (Inl e, w)
           | Inr src_size \<Rightarrow>
               if out_size > src_size then
                 (case (if out_path \<noteq> join dst_dir name
                        then (case remove_ignoring_OSError env out_path w of
                                (Inl e, w1) \<Rightarrow> (Inl e, w1)
                              | (Inr _, w1) \<Rightarrow> (Inr (join dst_dir name), w1))
                        else (Inr out_path, w)) of
                    (Inl e, w1) \<Rightarrow> (Inl e, w1)
                  | (Inr out_path, w1) \<Rightarrow>
                      (case copy2 env path out_path w1 of
                         (Inl e, w2) \<Rightarrow> (Inl e, w2)
                       | (Inr _, w2) \<Rightarrow> (Inr out_path, w2)))
               else (Inr out_path, w)))"

text \<open>
  The progress callback: \<open>progress_cb\<close> says whether one was passed (\<^verbatim>\<open>None\<close> is
  falsy, a function is truthy); an invocation is recorded in \<open>cb_calls\<close>.
\<close>

definition call_progress_cb :: "bool \<Rightarrow> nat \<times> nat \<times> bool \<Rightarrow> world \<Rightarrow> world" where
  "call_progress_cb progress_cb args w =
     (if progress_cb then w\<lparr>cb_calls := cb_calls w @ [args]\<rparr> else w)"

text \<open>
  Lines 44 to 86, one pass of the loop: transcode, guard, then
  \<^verbatim>\<open>
  out_paths.append(out_path)
  if progress_cb:
      progress_cb(1, total, step=True)
  \<close>
  The result is the path appended to \<^verbatim>\<open>out_paths\<close>.
\<close>

definition process_file ::
  "env \<Rightarrow> string \<Rightarrow> int \<Rightarrow> bool \<Rightarrow> nat \<Rightarrow> string \<Rightarrow> world \<Rightarrow> (error + string) \<times> world" where
  "process_file env dst_dir quality progress_cb total' path w =
     (case transcode env dst_dir quality path w of
        (Inl e, w1) \<Rightarrow> (Inl e, w1)
      | (Inr out_path, w1) \<Rightarrow>
          (case guard env dst_dir path out_path w1 of
             (Inl e, w2) \<Rightarrow> (Inl e, w2)
           | (Inr out_path, w2) \<Rightarrow>
               (Inr out_path, call_progress_cb progress_cb (1, total', True) w2)))"

text \<open>The loop over \<^verbatim>\<open>files\<close>; no exception is caught, so the first one ends the loop.\<close>

fun process_files ::
  "env \<Rightarrow> string \<Rightarrow> int \<Rightarrow> bool \<Rightarrow> nat \<Rightarrow> string list \<Rightarrow> string list \<Rightarrow> world
     \<Rightarrow> (error + string list) \<times> world" where
  "process_files env dst_dir quality progress_cb total' [] out_paths w = (Inr out_paths, w)"
| "process_files env dst_dir quality progress_cb total' (path # rest) out_paths w =
     (case process_file env dst_dir quality progress_cb total' path w of
        (Inl e, w') \<Rightarrow> (Inl e, w')
      | (Inr out_path, w') \<Rightarrow>
          process_files env dst_dir quality progress_cb total' rest (out_paths @ [out_path]) w')"

subsection \<open>The batch\<close>

text \<open>
  \<^verbatim>\<open>
  def iter_images(src_dir):
      for name in os.listdir(src_dir):
          path = os.path.join(src_dir, name)
          if not os.path.isfile(path):
              continue
          ext = os.path.splitext(name)[1].lower()
          if ext in (".jpg", ".jpeg", ".png"):
              yield path
  \<close>
\<close>

fun iter_names :: "env \<Rightarrow> world \<Rightarrow> string \<Rightarrow> string list \<Rightarrow> string list" where
  "iter_names env w src_dir [] = []"
| "iter_names env w src_dir (name # names) =
     (let path = join src_dir name in
      if isfile env w path \<and> lower (snd (splitext name)) \<in> set [''.jpg'', ''.jpeg'', ''.png'']
      then path # iter_names env w src_dir names
      else iter_names env w src_dir names)"

definition iter_images :: "env \<Rightarrow> world \<Rightarrow> string \<Rightarrow> error + string list" where
  "iter_images env w src_dir =
     (case listdir env src_dir of
        None \<Rightarrow> Inl FileNotFoundError
      | Some names \<Rightarrow> Inr (iter_names env w src_dir names))"

text \<open>\<^verbatim>\<open>sum(os.path.getsize(p) for p in ps)\<close>.\<close>

fun sum_getsize :: "env \<Rightarrow> world \<Rightarrow> string list \<Rightarrow> error + nat" where
  "sum_getsize env w [] = Inr 0"
| "sum_getsize env w (p # ps) =
     (case getsize env w p of
        Inl e \<Rightarrow> Inl e
      | Inr n \<Rightarrow> (case sum_getsize env w ps of Inl e \<Rightarrow> Inl e | Inr m \<Rightarrow> Inr (n + m)))"

text \<open>
  \<^verbatim>\<open>
  def compress_dir_with_progress(src_dir, dst_dir, quality, progress_cb):
      os.makedirs(dst_dir, exist_ok=True)
      files = list(iter_images(src_dir))
      total = len(files)
      if progress_cb:
          progress_cb(0, total)
      out_paths = []
      for path in files:
          (lines 44 to 86)
      return len(files), sum(os.path.getsize(p) for p in files), sum(
          os.path.getsize(p) for p in out_paths)
  \<close>
  \<^verbatim>\<open>os.makedirs\<close> raises when the destination is an existing regular file. The
  \<^verbatim>\<open>quality\<close> is handed on as it comes.
\<close>

definition compress_dir_with_progress ::
  "env \<Rightarrow> string \<Rightarrow> string \<Rightarrow> int \<Rightarrow> bool \<Rightarrow> world \<Rightarrow> (error + nat \<times> nat \<times> nat) \<times> world" where
  "compress_dir_with_progress env src_dir dst_dir quality progress_cb w =
     (if isfile env w dst_dir then (Inl FileExistsError, w)
      else case iter_images env w src_dir of
        Inl e \<Rightarrow> (Inl e, w)
      | Inr files \<Rightarrow>
          (let total' = length files;
               w0 = call_progress_cb progress_cb (0, total', False) w
           in case process_files env dst_dir quality progress_cb total' files [] w0 of
                (Inl e, w1) \<Rightarrow> (Inl e, w1)
              | (Inr out_paths, w1) \<Rightarrow>
                  (case sum_getsize env w1 files of
                     Inl e \<Rightarrow> (Inl e, w1)
                   | Inr src_bytes \<Rightarrow>
                       (case sum_getsize env w1 out_paths of
                          Inl e \<Rightarrow> (Inl e, w1)
                        | Inr dst_bytes \<Rightarrow> (Inr (length files, src_bytes, dst_bytes), w1)))))"

text \<open>
  \<^verbatim>\<open>
  def compress_dir(src_dir, dst_dir, quality):
      return compress_dir_with_progress(src_dir, dst_dir, quality, None)
  \<close>
\<close>

definition compress_dir :: "env \<Rightarrow> string \<Rightarrow> string \<Rightarrow> int \<Rightarrow> world \<Rightarrow> (error + nat \<times> nat \<times> nat) \<times> world" where
  "compress_dir env src_dir dst_dir quality w =
     compress_dir_with_progress env src_dir dst_dir quality False w"

subsection \<open>The two entry points\<close>

text \<open>
  The command line: \<^verbatim>\<open>--quality\<close> is parsed by \<^verbatim>\<open>argparse\<close> with \<^verbatim>\<open>type=int\<close>, help text
  \<^verbatim>\<open>"JPEG quality (1-95)"\<close>, and \<^verbatim>\<open>run_cli\<close> hands it to \<^verbatim>\<open>compress_dir\<close>:
  \<^verbatim>\<open>
  def run_cli(args):
      count, src_bytes, dst_bytes = compress_dir(args.src, args.dst, args.quality)
      (the three numbers are printed)
  \<close>
\<close>

definition run_cli :: "env \<Rightarrow> string \<Rightarrow> string \<Rightarrow> int \<Rightarrow> world \<Rightarrow> (error + nat \<times> nat \<times> nat) \<times> world" where
  "run_cli env src dst quality w = compress_dir env src dst quality w"

text \<open>What the window shows the user when a run ends.\<close>

datatype gui_message =
    BadSourceFolder
  | NoDestinationFolder
  | QualityNotANumber
  | QualityOutOfRange
  | Failed error            \<comment> \<open>the error box, with the exception's text\<close>
  | ErrorBoxNameError       \<comment> \<open>no box: the function that was to show it raised \<^verbatim>\<open>NameError\<close>\<close>
  | Completed nat nat nat

text \<open>
  \<^verbatim>\<open>
  def run_worker(src, dst, quality):
      try:
          count, src_bytes, dst_bytes = compress_dir_with_progress(
              src, dst, quality, progress_cb)
      except Exception as exc:
          root.after(0, lambda: messagebox.showerror(..., f"...{exc}"))
          root.after(0, lambda: set_ui_state(True))
          return
      (completion box with count, src_bytes, dst_bytes)
  \<close>
  The error box is not shown by the worker: it is a function handed to Tk, which reads
  \<^verbatim>\<open>exc\<close> when Tk runs it. Python unbinds \<^verbatim>\<open>exc\<close> at the end of the \<^verbatim>\<open>except\<close> block, so
  the box appears only if Tk runs the function before the worker has left the block
  (\<open>box_sees_exc\<close>); run later, the function raises \<^verbatim>\<open>NameError\<close> and no box appears.
\<close>

definition run_worker :: "env \<Rightarrow> string \<Rightarrow> string \<Rightarrow> int \<Rightarrow> world \<Rightarrow> gui_message \<times> world" where
  "run_worker env src dst quality w =
     (case compress_dir_with_progress env src dst quality True w of
        (Inl e, w') \<Rightarrow> (if box_sees_exc env then Failed e else ErrorBoxNameError, w')
      | (Inr (count, src_bytes, dst_bytes), w') \<Rightarrow> (Completed count src_bytes dst_bytes, w'))"

text \<open>\<^verbatim>\<open>str.strip\<close>, on the ASCII whitespace characters.\<close>

definition is_space :: "char \<Rightarrow> bool" where
  "is_space c = ((of_char c :: nat) \<in> set [9, 10, 11, 12, 13, 28, 29, 30, 31, 32])"

definition strip :: "string \<Rightarrow> string" where
  "strip s = rev (dropWhile is_space (rev (dropWhile is_space s)))"

text \<open>
  The start button. \<open>quality_int\<close> is the outcome of \<^verbatim>\<open>int(quality_var.get())\<close>,
  \<open>None\<close> for a \<^verbatim>\<open>ValueError\<close>. The worker thread is run to its end.
  \<^verbatim>\<open>
  def run():
      src = src_var.get().strip()
      dst = dst_var.get().strip()
      if not src or not os.path.isdir(src):
          (error box); return
      if not dst:
          (error box); return
      try:
          quality = int(quality_var.get())
      except ValueError:
          (error box); return
      if quality < 1 or quality > 95:
          (error box); return
      (start run_worker(src, dst, quality))
  \<close>
\<close>

definition run :: "env \<Rightarrow> string \<Rightarrow> string \<Rightarrow> int option \<Rightarrow> world \<Rightarrow> gui_message \<times> world" where
  "run env src_var dst_var quality_int w =
     (let src = strip src_var; dst = strip dst_var in
      if src = [] \<or> \<not> isdir env src then (BadSourceFolder, w)
      else if dst = [] then (NoDestinationFolder, w)
      else case quality_int of
             None \<Rightarrow> (QualityNotANumber, w)
           | Some quality \<Rightarrow>
               if quality < 1 \<or> quality > 95 then (QualityOutOfRange, w)
               else run_worker env src dst quality w)"

text \<open>
  The window's progress callback, as a function from the value of \<^verbatim>\<open>progress_var\<close>
  before an invocation to its value after it:
  \<^verbatim>\<open>
  if total == 0: progress_var.set(0); return
  if step: progress_var.set(min(total, progress_var.get() + delta))
  else:    progress_var.set(delta)
  \<close>
\<close>

fun gui_progress_cb :: "nat \<Rightarrow> nat \<times> nat \<times> bool \<Rightarrow> nat" where
  "gui_progress_cb progress_var (delta, total', step) =
     (if total' = 0 then 0
      else if step then min total' (progress_var + delta)
      else delta)"

text \<open>
  The image the JPEG encoder receives: lines 57 to 58 and 61 to 62 convert to RGB
  unless the mode is already RGB or L.
\<close>

definition lossy_image :: "env \<Rightarrow> image \<Rightarrow> image" where
  "lossy_image env img = (if mode img \<in> set [''RGB'', ''L''] then img else convert_RGB env img)"

subsection \<open>A small environment and world for concrete runs\<close>

text \<open>
  A stand-in for Pillow, small enough to evaluate. The first byte of a file tells the
  decoder what it holds. 1: an RGBA image of two pixels without metadata, the next two
  bytes its alpha band, the rest its colour bands; 4: the same with an EXIF block;
  2: an RGB image without metadata; 3: an RGB image with an EXIF block and an ICC
  profile; anything else does not decode. The PNG encoder writes 1, the alpha band
  and the colour bands; the JPEG encoder writes two bytes up to quality 50 and eight
  bytes above. The conversion to RGB keeps the colour bands.
\<close>

definition ex_decode :: "bytes \<Rightarrow> image option" where
  "ex_decode bs =
     (case bs of
        [] \<Rightarrow> None
      | t # rest \<Rightarrow>
          if t = 1 then
            Some \<lparr>mode = ''RGBA'', alpha = take 2 rest, colour = drop 2 rest, info = Map.empty\<rparr>
          else if t = 4 then
            Some \<lparr>mode = ''RGBA'', alpha = take 2 rest, colour = drop 2 rest,
                  info = [''exif'' \<mapsto> [69, 120]]\<rparr>
          else if t = 2 then Some \<lparr>mode = ''RGB'', alpha = [], colour = rest, info = Map.empty\<rparr>
          else if t = 3 then
            Some \<lparr>mode = ''RGB'', alpha = [], colour = rest,
                  info = [''exif'' \<mapsto> [69, 120], ''icc_profile'' \<mapsto> [73]]\<rparr>
          else None)"

text \<open>A path that starts with \<^verbatim>\<open>./\<close> names the same file as the path without it.\<close>

definition ex_realpath :: "string \<Rightarrow> string" where
  "ex_realpath p = (if take 2 p = ''./'' then drop 2 p else p)"

definition ex_env :: env where
  "ex_env =
     \<lparr>listdir = (\<lambda>d. if d = ''in'' then Some [''a.jpg'', ''b.png'', ''c.png'', ''notes.txt''] else None),
      isdir = (\<lambda>d. d = ''in'' \<or> d = ''out''),
      realpath = ex_realpath,
      decode = ex_decode,
      rgb_pixels = colour,
      png_encode = (\<lambda>img optimize compress_level. Inr (1 # alpha img @ colour img)),
      jpeg_encode = (\<lambda>img quality optimize progressive exif_bytes icc.
                       Inr (if quality \<le> 50 then [3, 7] else [3, 7, 7, 7, 7, 7, 7, 7])),
      now = 100,
      remove_fails = (\<lambda>p. False),
      unwritable = (\<lambda>p. False),
      box_sees_exc = False\<rparr>"

text \<open>
  Three images in the folder \<^verbatim>\<open>in\<close>: a JPEG with an EXIF block and an ICC profile, a
  PNG with an EXIF block whose alpha band is fully opaque, and a PNG with one
  transparent pixel.
\<close>

definition ex_fs :: "string \<rightharpoonup> regfile" where
  "ex_fs =
     [''in/a.jpg'' \<mapsto> \<lparr>content = [3, 5, 5, 5, 5], mtime = 1\<rparr>,
      ''in/b.png'' \<mapsto> \<lparr>content = [4, 255, 255, 8, 8], mtime = 2\<rparr>,
      ''in/c.png'' \<mapsto> \<lparr>content = [1, 255, 0, 8, 8], mtime = 3\<rparr>]"

definition ex_world :: world where
  "ex_world = \<lparr>fs = ex_fs, cb_calls = [], saves = []\<rparr>"

text \<open>The same folder, except that the second file does not decode.\<close>

definition ex_world_bad :: world where
  "ex_world_bad =
     \<lparr>fs = ex_fs(''in/b.png'' \<mapsto> \<lparr>content = [0, 5], mtime = 2\<rparr>), cb_calls = [], saves = []\<rparr>"

text \<open>
  Two images without an EXIF block: a PNG whose alpha band is fully opaque and a
  JPEG.
\<close>

definition ex_world_plain :: world where
  "ex_world_plain =
     \<lparr>fs = [''in/d.png'' \<mapsto> \<lparr>content = [1, 255, 255, 8, 8], mtime = 4\<rparr>,
            ''in/e.jpg'' \<mapsto> \<lparr>content = [2, 5, 5, 5, 5], mtime = 5\<rparr>],
      cb_calls = [], saves = []\<rparr>"

text \<open>The same environment, except that nothing can be deleted.\<close>

definition ex_env_locked :: env where
  "ex_env_locked = ex_env\<lparr>remove_fails := (\<lambda>p. True)\<rparr>"

section \<open>Properties\<close>

subsection \<open>What each step of the loop body computes\<close>

lemma save_png_cases:
  "save_png env p img opt lvl w =
     (if unwritable env p then (Inl PermissionError, w)
      else case png_encode env img opt lvl of
             Inl e \<Rightarrow> (Inl e, save_failed env p w)
           | Inr bs \<Rightarrow>
               (Inr (), w\<lparr>fs := (fs w)(realpath env p \<mapsto> \<lparr>content = bs, mtime = now env\<rparr>),
                         saves := saves w @ [SavePNG p img opt lvl]\<rparr>))"
  by (simp add: save_png_def write_file_def split: sum.splits)

lemma save_jpeg_without_exif:
  "save_jpeg env p img q opt prog None icc w =
     (if unwritable env p then (Inl PermissionError, w) else (Inl TypeError, save_failed env p w))"
  by (simp add: save_jpeg_def)

lemma save_jpeg_with_exif:
  "save_jpeg env p img q opt prog (Some ex) icc w =
     (if unwritable env p then (Inl PermissionError, w)
      else case jpeg_encode env img q opt prog ex icc of
             Inl e \<Rightarrow> (Inl e, save_failed env p w)
           | Inr bs \<Rightarrow>
               (Inr (), w\<lparr>fs := (fs w)(realpath env p \<mapsto> \<lparr>content = bs, mtime = now env\<rparr>),
                         saves := saves w @ [SaveJPEG p img q opt prog (Some ex) icc]\<rparr>))"
  by (simp add: save_jpeg_def write_file_def split: sum.splits)

lemma convert_RGB_simps [simp]:
  "mode (convert_RGB env img) = ''RGB''"
  "info (convert_RGB env img) = info img"
  "colour (convert_RGB env img) = rgb_pixels env img"
  "alpha (convert_RGB env img) = []"
  by (simp_all add: convert_RGB_def)



lemma png_branch_transparent:
  "has_transparency img = Inr True \<Longrightarrow>
   png_branch env dst_dir base ''.png'' out b img w =
      (case save_png env (join dst_dir (base @ ''.png'')) img True 9 w of
              (Inl e, w') \<Rightarrow> (Inl e, w')
            | (Inr u, w') \<Rightarrow> (Inr (join dst_dir (base @ ''.png''), False, img), w'))"
  unfolding png_branch_def by (simp add: Let_def)

lemma png_branch_opaque:
  "has_transparency img = Inr False \<Longrightarrow>
   png_branch env dst_dir base ''.png'' out b img w =
     (Inr (join dst_dir (base @ ''.jpg''), True, lossy_image env img), w)"
  unfolding png_branch_def by (simp add: Let_def lossy_image_def)

lemma png_branch_other:
  "ext \<noteq> ''.png'' \<Longrightarrow> png_branch env dst_dir base ext out b img w = (Inr (out, b, img), w)"
  unfolding png_branch_def by simp

lemma transcode_png_transparent:
  assumes ext: "lower (snd (splitext (basename path))) = ''.png''"
    and op: "image_open env w path = Inr img"
    and tr: "has_transparency img = Inr True"
  shows "transcode env dst_dir quality path w =
           (case save_png env (join dst_dir (fst (splitext (basename path)) @ ''.png'')) img True 9 w of
              (Inl e, w') \<Rightarrow> (Inl e, w')
            | (Inr u, w') \<Rightarrow> (Inr (join dst_dir (fst (splitext (basename path)) @ ''.png'')), w'))"
proof (cases "save_png env (join dst_dir (fst (splitext (basename path)) @ ''.png'')) img True 9 w")
  case (Pair r w')
  then show ?thesis
    unfolding transcode_def Let_def ext op
    by (cases r) (simp_all add: png_branch_transparent [OF tr])
qed

lemma transcode_png_opaque:
  assumes ext: "lower (snd (splitext (basename path))) = ''.png''"
    and op: "image_open env w path = Inr img"
    and tr: "has_transparency img = Inr False"
  shows "transcode env dst_dir quality path w =
           (case save_jpeg env (join dst_dir (fst (splitext (basename path)) @ ''.jpg''))
                   (lossy_image env img) quality True True (info img ''exif'') (info img ''icc_profile'') w of
              (Inl e, w') \<Rightarrow> (Inl e, w')
            | (Inr u, w') \<Rightarrow> (Inr (join dst_dir (fst (splitext (basename path)) @ ''.jpg'')), w'))"
proof -
  have m: "mode (lossy_image env img) \<in> set [''RGB'', ''L'']"
    by (simp add: lossy_image_def)
  have i: "info (lossy_image env img) = info img"
    by (simp add: lossy_image_def)
  show ?thesis
    unfolding transcode_def Let_def ext op
    using m by (auto simp add: png_branch_opaque [OF tr] i)
qed

lemma transcode_jpeg:
  assumes ext: "lower (snd (splitext (basename path))) \<in> set [''.jpg'', ''.jpeg'']"
    and op: "image_open env w path = Inr img"
  shows "transcode env dst_dir quality path w =
           (case save_jpeg env (join dst_dir (basename path))
                   (lossy_image env img) quality True True (info img ''exif'') (info img ''icc_profile'') w of
              (Inl e, w') \<Rightarrow> (Inl e, w')
            | (Inr u, w') \<Rightarrow> (Inr (join dst_dir (basename path)), w'))"
proof -
  have ne: "lower (snd (splitext (basename path))) \<noteq> ''.png''"
    using ext by auto
  have i: "info (lossy_image env img) = info img"
    by (simp add: lossy_image_def)
  have l: "(if mode img \<notin> set [''RGB'', ''L''] then convert_RGB env img else img) = lossy_image env img"
    by (simp add: lossy_image_def)
  show ?thesis
    unfolding transcode_def Let_def op
    using ext by (simp add: png_branch_other [OF ne] l i del: set_simps)
qed

lemma transcode_open_fails:
  "image_open env w path = Inl e \<Longrightarrow> transcode env dst_dir quality path w = (Inl e, w)"
  by (simp add: transcode_def Let_def)

lemma remove_ignoring_OSError_cases:
  "remove_ignoring_OSError env p w =
     (Inr (), if fs w (realpath env p) = None \<or> remove_fails env p then w
              else w\<lparr>fs := (fs w)(realpath env p := None)\<rparr>)"
  by (simp add: remove_ignoring_OSError_def os_remove_def)

lemma guard_keep:
  assumes "fs w (realpath env out_path) = Some a" and "fs w (realpath env path) = Some s"
    and "length (content a) \<le> length (content s)"
  shows "guard env dst_dir path out_path w = (Inr out_path, w)"
  using assms by (simp add: guard_def getsize_def)

lemma guard_missing_artifact:
  "fs w (realpath env out_path) = None \<Longrightarrow>
     guard env dst_dir path out_path w = (Inl FileNotFoundError, w)"
  by (simp add: guard_def getsize_def)

lemma guard_missing_source:
  "fs w (realpath env path) = None \<Longrightarrow> \<exists>e. guard env dst_dir path out_path w = (Inl e, w)"
  by (simp add: guard_def getsize_def split: option.splits)

lemma guard_regress:
  assumes a: "fs w (realpath env out_path) = Some a" and s: "fs w (realpath env path) = Some s"
    and gt: "length (content s) < length (content a)"
  shows "guard env dst_dir path out_path w =
           (case copy2 env path (join dst_dir (basename path))
                   (if out_path \<noteq> join dst_dir (basename path) \<and> \<not> remove_fails env out_path
                    then w\<lparr>fs := (fs w)(realpath env out_path := None)\<rparr> else w) of
              (Inl e, w2) \<Rightarrow> (Inl e, w2)
            | (Inr u, w2) \<Rightarrow> (Inr (join dst_dir (basename path)), w2))"
  using a s gt
  by (simp add: guard_def getsize_def Let_def remove_ignoring_OSError_cases)

lemma copy2_Inr:
  "copy2 env src dst w = (Inr u, w') \<Longrightarrow>
     \<exists>f. fs w (realpath env src) = Some f \<and> realpath env src \<noteq> realpath env dst \<and>
         \<not> unwritable env dst \<and> w' = w\<lparr>fs := (fs w)(realpath env dst \<mapsto> f)\<rparr>"
  by (auto simp add: copy2_def split: option.splits if_splits)

lemma guard_Inr:
  assumes g: "guard env dst_dir path art w1 = (Inr out, w2)"
  shows "\<exists>src_f art_f. fs w1 (realpath env path) = Some src_f \<and>
           fs w1 (realpath env art) = Some art_f \<and>
           fs w2 (realpath env path) = Some src_f \<and> cb_calls w2 = cb_calls w1 \<and> saves w2 = saves w1 \<and>
           (if length (content src_f) < length (content art_f)
            then out = join dst_dir (basename path) \<and> fs w2 (realpath env out) = Some src_f
            else out = art \<and> w2 = w1)"
proof -
  obtain art_f where a: "fs w1 (realpath env art) = Some art_f"
    using g guard_missing_artifact [of w1 env art dst_dir path]
    by (cases "fs w1 (realpath env art)") auto
  obtain src_f where s: "fs w1 (realpath env path) = Some src_f"
    using g guard_missing_source [of w1 env path dst_dir art]
    by (cases "fs w1 (realpath env path)") auto
  show ?thesis
  proof (cases "length (content src_f) < length (content art_f)")
    case False
    then have "guard env dst_dir path art w1 = (Inr art, w1)"
      using guard_keep [OF a s] by simp
    with g a s False show ?thesis by simp
  next
    case True
    let ?t = "join dst_dir (basename path)"
    let ?w = "if art \<noteq> ?t \<and> \<not> remove_fails env art
              then w1\<lparr>fs := (fs w1)(realpath env art := None)\<rparr> else w1"
    have pa: "realpath env path \<noteq> realpath env art" using a s True by auto
    have eq: "guard env dst_dir path art w1 =
                (case copy2 env path ?t ?w of (Inl e, w2) \<Rightarrow> (Inl e, w2) | (Inr u, w2) \<Rightarrow> (Inr ?t, w2))"
      by (rule guard_regress [OF a s True])
    obtain r w' where c: "copy2 env path ?t ?w = (r, w')" by (cases "copy2 env path ?t ?w")
    from g eq c obtain u where r: "r = Inr u" and out: "out = ?t" and w2: "w2 = w'"
      by (cases r) auto
    from copy2_Inr [OF c [unfolded r]] obtain f where
      f: "fs ?w (realpath env path) = Some f" and pt: "realpath env path \<noteq> realpath env ?t"
      and w': "w' = ?w\<lparr>fs := (fs ?w)(realpath env ?t \<mapsto> f)\<rparr>"
      by blast
    have ff: "f = src_f" using f s pa by (simp split: if_splits)
    show ?thesis
      using a s True out w2 w' ff pt pa by (simp split: if_splits)
  qed
qed

lemma transcode_has_transparency_fails:
  assumes ext: "lower (snd (splitext (basename path))) = ''.png''"
    and op: "image_open env w path = Inr img"
    and tr: "has_transparency img = Inl e"
  shows "transcode env dst_dir quality path w = (Inl e, w)"
  unfolding transcode_def Let_def ext op
  by (simp add: png_branch_def tr)

lemma transcode_other:
  assumes ne: "lower (snd (splitext (basename path))) \<noteq> ''.png''"
    and nj: "lower (snd (splitext (basename path))) \<notin> set [''.jpg'', ''.jpeg'']"
    and op: "image_open env w path = Inr img"
  shows "transcode env dst_dir quality path w = (Inr (join dst_dir (basename path)), w)"
  unfolding transcode_def Let_def op
  using nj by (simp add: png_branch_other [OF ne] del: set_simps)

lemma save_png_Inr:
  "save_png env p img opt lvl w = (Inr u, w') \<Longrightarrow>
     \<exists>bs. png_encode env img opt lvl = Inr bs \<and> \<not> unwritable env p \<and>
          w' = w\<lparr>fs := (fs w)(realpath env p \<mapsto> \<lparr>content = bs, mtime = now env\<rparr>),
                 saves := saves w @ [SavePNG p img opt lvl]\<rparr>"
  by (auto simp add: save_png_cases split: if_splits sum.splits)

lemma save_jpeg_Inr:
  "save_jpeg env p img q opt prog exif icc w = (Inr u, w') \<Longrightarrow>
     \<exists>ex bs. exif = Some ex \<and> jpeg_encode env img q opt prog ex icc = Inr bs \<and>
          \<not> unwritable env p \<and>
          w' = w\<lparr>fs := (fs w)(realpath env p \<mapsto> \<lparr>content = bs, mtime = now env\<rparr>),
                 saves := saves w @ [SaveJPEG p img q opt prog exif icc]\<rparr>"
  by (cases exif)
     (auto simp add: save_jpeg_without_exif save_jpeg_with_exif split: if_splits sum.splits)

lemma transcode_Inr_frame:
  assumes t: "transcode env dst_dir quality path w = (Inr art, w1)"
  shows "cb_calls w1 = cb_calls w \<and> (\<forall>k. k \<noteq> realpath env art \<longrightarrow> fs w1 k = fs w k)"
proof -
  let ?ext = "lower (snd (splitext (basename path)))"
  let ?base = "fst (splitext (basename path))"
  obtain img where op: "image_open env w path = Inr img"
    using t transcode_open_fails [of env w path _ dst_dir quality]
    by (cases "image_open env w path") auto
  consider (png) "?ext = ''.png''" | (jpg) "?ext \<in> set [''.jpg'', ''.jpeg'']"
    | (other) "?ext \<noteq> ''.png''" "?ext \<notin> set [''.jpg'', ''.jpeg'']"
    by blast
  then show ?thesis
  proof cases
    case png
    show ?thesis
    proof (cases "has_transparency img")
      case (Inl e)
      with t transcode_has_transparency_fails [OF png op Inl] show ?thesis by simp
    next
      case (Inr b)
      show ?thesis
      proof (cases b)
        case True
        have tr: "has_transparency img = Inr True" using Inr True by simp
        obtain r w' where sv: "save_png env (join dst_dir (?base @ ''.png'')) img True 9 w = (r, w')"
          by (cases "save_png env (join dst_dir (?base @ ''.png'')) img True 9 w")
        from t transcode_png_transparent [OF png op tr, of dst_dir quality] sv
        obtain u where r: "r = Inr u" and a: "art = join dst_dir (?base @ ''.png'')" and w: "w1 = w'"
          by (cases r) auto
        from save_png_Inr [OF sv [unfolded r]] a w show ?thesis by auto
      next
        case False
        have tr: "has_transparency img = Inr False" using Inr False by simp
        obtain r w' where sv: "save_jpeg env (join dst_dir (?base @ ''.jpg'')) (lossy_image env img)
            quality True True (info img ''exif'') (info img ''icc_profile'') w = (r, w')"
          by (cases "save_jpeg env (join dst_dir (?base @ ''.jpg'')) (lossy_image env img)
            quality True True (info img ''exif'') (info img ''icc_profile'') w")
        from t transcode_png_opaque [OF png op tr, of dst_dir quality] sv
        obtain u where r: "r = Inr u" and a: "art = join dst_dir (?base @ ''.jpg'')" and w: "w1 = w'"
          by (cases r) auto
        from save_jpeg_Inr [OF sv [unfolded r]] a w show ?thesis by auto
      qed
    qed
  next
    case jpg
    obtain r w' where sv: "save_jpeg env (join dst_dir (basename path)) (lossy_image env img)
        quality True True (info img ''exif'') (info img ''icc_profile'') w = (r, w')"
      by (cases "save_jpeg env (join dst_dir (basename path)) (lossy_image env img)
        quality True True (info img ''exif'') (info img ''icc_profile'') w")
    from t transcode_jpeg [OF jpg op, of dst_dir quality] sv
    obtain u where r: "r = Inr u" and a: "art = join dst_dir (basename path)" and w: "w1 = w'"
      by (cases r) auto
    from save_jpeg_Inr [OF sv [unfolded r]] a w show ?thesis by auto
  next
    case other
    with t transcode_other [OF other op, of dst_dir quality] show ?thesis by simp
  qed
qed

lemma process_file_Inr:
  assumes p: "process_file env dst_dir quality progress_cb total' path w = (Inr out, w')"
  shows "\<exists>art w1 w2. transcode env dst_dir quality path w = (Inr art, w1) \<and>
           guard env dst_dir path art w1 = (Inr out, w2) \<and>
           w' = call_progress_cb progress_cb (1, total', True) w2"
proof -
  obtain r w1 where t: "transcode env dst_dir quality path w = (r, w1)"
    by (cases "transcode env dst_dir quality path w")
  from p t obtain art where r: "r = Inr art"
    by (cases r) (auto simp add: process_file_def)
  obtain r2 w2 where g: "guard env dst_dir path art w1 = (r2, w2)"
    by (cases "guard env dst_dir path art w1")
  from p t r g obtain out2 where r2: "r2 = Inr out2"
    by (cases r2) (auto simp add: process_file_def)
  from p t r g r2 show ?thesis
    by (auto simp add: process_file_def)
qed

lemma call_progress_cb_simps [simp]:
  "fs (call_progress_cb b c w) = fs w"
  "saves (call_progress_cb b c w) = saves w"
  "cb_calls (call_progress_cb b c w) = cb_calls w @ (if b then [c] else [])"
  by (simp_all add: call_progress_cb_def)

lemma process_file_open_fails:
  "image_open env w path = Inl e \<Longrightarrow>
     process_file env dst_dir quality progress_cb total' path w = (Inl e, w)"
  by (simp add: process_file_def transcode_open_fails)

lemma process_files_append:
  "process_files env dst_dir quality progress_cb total' (pre @ rest) outs w =
     (case process_files env dst_dir quality progress_cb total' pre outs w of
        (Inl e, w1) \<Rightarrow> (Inl e, w1)
      | (Inr outs1, w1) \<Rightarrow> process_files env dst_dir quality progress_cb total' rest outs1 w1)"
proof (induction pre arbitrary: outs w)
  case Nil
  show ?case by simp
next
  case (Cons p pre)
  show ?case
  proof (cases "process_file env dst_dir quality progress_cb total' p w")
    case (Pair r w1)
    then show ?thesis using Cons.IH by (cases r) simp_all
  qed
qed

lemma process_file_cb_calls:
  assumes p: "process_file env dst_dir quality progress_cb total' path w = (Inr out, w')"
  shows "cb_calls w' = cb_calls w @ (if progress_cb then [(1, total', True)] else [])"
proof -
  from process_file_Inr [OF p] obtain art w1 w2 where
    t: "transcode env dst_dir quality path w = (Inr art, w1)" and
    g: "guard env dst_dir path art w1 = (Inr out, w2)" and
    w': "w' = call_progress_cb progress_cb (1, total', True) w2"
    by blast
  from guard_Inr [OF g] have "cb_calls w2 = cb_calls w1" by blast
  moreover from transcode_Inr_frame [OF t] have "cb_calls w1 = cb_calls w" by blast
  ultimately show ?thesis using w' by simp
qed

lemma process_files_cb_calls:
  "process_files env dst_dir quality progress_cb total' files outs w = (Inr outs', w') \<Longrightarrow>
     cb_calls w' = cb_calls w @ (if progress_cb then replicate (length files) (1, total', True) else [])
     \<and> length outs' = length outs + length files"
proof (induction files arbitrary: outs w)
  case Nil
  then show ?case by simp
next
  case (Cons p files)
  obtain r w1 where pf: "process_file env dst_dir quality progress_cb total' p w = (r, w1)"
    by (cases "process_file env dst_dir quality progress_cb total' p w")
  from Cons.prems pf obtain out where r: "r = Inr out"
    by (cases r) auto
  from Cons.prems pf r
  have rest: "process_files env dst_dir quality progress_cb total' files (outs @ [out]) w1 = (Inr outs', w')"
    by simp
  from Cons.IH [OF rest] process_file_cb_calls [OF pf [unfolded r]]
  show ?case by (simp add: replicate_append_same)
qed

subsection \<open>Evaluating the concrete runs\<close>

lemmas path_defs = basename_def splitext_def rfind_def join_def lower_def lower_char_def
lemmas fs_defs = isfile_def getsize_def write_file_def os_remove_def copy2_def image_open_def
  remove_ignoring_OSError_def save_failed_def
lemmas pipeline_defs = has_transparency_def convert_RGB_def lossy_image_def save_png_def
  save_jpeg_def png_branch_def transcode_def guard_def call_progress_cb_def process_file_def
lemmas ex_defs = ex_env_def ex_realpath_def ex_world_def ex_fs_def ex_decode_def ex_world_bad_def
  ex_world_plain_def ex_env_locked_def
lemmas batch_defs = iter_images_def compress_dir_with_progress_def compress_dir_def run_cli_def
  run_worker_def run_def strip_def is_space_def

subsection \<open>The transparency flag\<close>

lemma getextrema_Min:
  assumes "xs \<noteq> []"
  shows "getextrema xs = Some (Min (set xs), Max (set xs))"
proof (cases xs)
  case Nil
  with assms show ?thesis by simp
next
  case (Cons a list)
  show ?thesis
    unfolding Cons Min.set_eq_fold Max.set_eq_fold by simp
qed

text \<open>
  Claim C4. For an opened image, \<^verbatim>\<open>has_transparency\<close> returns true exactly when the mode
  has an alpha band (RGBA or LA) and the smallest alpha value over all pixels is below
  255, or the mode is P and the key \<^verbatim>\<open>transparency\<close> is in the image's \<^verbatim>\<open>info\<close>; for every
  other mode it returns false. The image has at least one pixel, as every decoded
  file does: on an alpha band without pixels the function raises instead.
\<close>

theorem has_transparency_rule:
  assumes px: "mode img \<in> set [''RGBA'', ''LA''] \<longrightarrow> alpha img \<noteq> []"
  shows "has_transparency img =
           Inr ((mode img = ''RGBA'' \<or> mode img = ''LA'') \<and> Min (set (alpha img)) < 255
                \<or> mode img = ''P'' \<and> ''transparency'' \<in> dom (info img))"
proof (cases "mode img \<in> set [''RGBA'', ''LA'']")
  case True
  with px have "alpha img \<noteq> []" by blast
  then have "getextrema (alpha img) = Some (Min (set (alpha img)), Max (set (alpha img)))"
    by (rule getextrema_Min)
  with True show ?thesis
    by (auto simp add: has_transparency_def)
next
  case False
  then show ?thesis
    by (auto simp add: has_transparency_def)
qed

theorem has_transparency_rule_witness:
  "has_transparency \<lparr>mode = ''RGBA'', alpha = [255, 0], colour = [], info = Map.empty\<rparr> = Inr True \<and>
   has_transparency \<lparr>mode = ''LA'', alpha = [255, 255], colour = [], info = Map.empty\<rparr> = Inr False \<and>
   has_transparency \<lparr>mode = ''P'', alpha = [], colour = [7], info = [''transparency'' \<mapsto> [0]]\<rparr> = Inr True \<and>
   has_transparency \<lparr>mode = ''P'', alpha = [], colour = [7], info = Map.empty\<rparr> = Inr False \<and>
   has_transparency \<lparr>mode = ''RGB'', alpha = [], colour = [7], info = [''transparency'' \<mapsto> [0]]\<rparr> = Inr False"
  using has_transparency_rule [of "\<lparr>mode = ''RGBA'', alpha = [255, 0], colour = [], info = Map.empty\<rparr>"]
    has_transparency_rule [of "\<lparr>mode = ''LA'', alpha = [255, 255], colour = [], info = Map.empty\<rparr>"]
    has_transparency_rule [of "\<lparr>mode = ''P'', alpha = [], colour = [7], info = [''transparency'' \<mapsto> [0]]\<rparr>"]
    has_transparency_rule [of "\<lparr>mode = ''P'', alpha = [], colour = [7], info = Map.empty\<rparr>"]
    has_transparency_rule [of "\<lparr>mode = ''RGB'', alpha = [], colour = [7], info = [''transparency'' \<mapsto> [0]]\<rparr>"]
  by simp

text \<open>A fully opaque alpha band does not count as transparency.\<close>

lemma opaque_alpha_not_transparent:
  assumes "mode img \<in> set [''RGBA'', ''LA'']" and "alpha img \<noteq> []"
    and "\<forall>a \<in> set (alpha img). a = 255"
  shows "has_transparency img = Inr False"
proof -
  have "Min (set (alpha img)) \<in> set (alpha img)"
    using assms(2) by (intro Min_in) simp_all
  with assms(3) have "Min (set (alpha img)) = 255" by blast
  with assms(1,2) show ?thesis
    by (simp add: has_transparency_def getextrema_Min)
qed

subsection \<open>The routing of PNG sources\<close>

text \<open>
  What the JPEG encoder is handed: the source itself when its mode is RGB or L, and
  otherwise its conversion, an image of mode RGB without an alpha band, with the pixels
  Pillow's conversion gives and with the source's \<^verbatim>\<open>info\<close>.
\<close>

lemma lossy_image_explicit:
  "lossy_image env img =
     (if mode img = ''RGB'' \<or> mode img = ''L'' then img
      else \<lparr>mode = ''RGB'', alpha = [], colour = rgb_pixels env img, info = info img\<rparr>)"
  by (cases img) (simp add: lossy_image_def convert_RGB_def)

lemma lossy_image_mode:
  "mode (lossy_image env img) = (if mode img = ''L'' then ''L'' else ''RGB'')"
  by (simp add: lossy_image_def)

text \<open>
  A \<^verbatim>\<open>.png\<close> source whose transparency flag is false and which carries an EXIF block
  is written as a JPEG under its base name with the extension \<^verbatim>\<open>.jpg\<close>, from the image
  above, where the target is writable and the encoder returns bytes.
\<close>

lemma png_with_exif_becomes_jpeg:
  assumes ext: "lower (snd (splitext (basename path))) = ''.png''"
    and op: "image_open env w path = Inr img"
    and tr: "has_transparency img = Inr False"
    and exif: "info img ''exif'' = Some ex"
    and wr: "\<not> unwritable env (join dst_dir (fst (splitext (basename path)) @ ''.jpg''))"
    and enc: "jpeg_encode env (lossy_image env img) quality True True ex
                (info img ''icc_profile'') = Inr bs"
  shows "transcode env dst_dir quality path w =
           (Inr (join dst_dir (fst (splitext (basename path)) @ ''.jpg'')),
            w\<lparr>fs := (fs w)(realpath env (join dst_dir (fst (splitext (basename path)) @ ''.jpg''))
                         \<mapsto> \<lparr>content = bs, mtime = now env\<rparr>),
              saves := saves w @
                [SaveJPEG (join dst_dir (fst (splitext (basename path)) @ ''.jpg''))
                   (lossy_image env img) quality True True
                   (Some ex) (info img ''icc_profile'')]\<rparr>)"
  using wr enc
  by (simp add: transcode_png_opaque [OF ext op tr] exif save_jpeg_with_exif)

text \<open>
  Without an EXIF block the same source is handed to the encoder with \<^verbatim>\<open>exif=None\<close>,
  and so is a JPEG source: the save raises \<^verbatim>\<open>TypeError\<close>.
\<close>

lemma jpeg_route_without_exif_raises:
  assumes op: "image_open env w path = Inr img"
    and route: "lower (snd (splitext (basename path))) \<in> set [''.jpg'', ''.jpeg''] \<and>
                  out = join dst_dir (basename path)
                \<or> lower (snd (splitext (basename path))) = ''.png'' \<and>
                  has_transparency img = Inr False \<and>
                  out = join dst_dir (fst (splitext (basename path)) @ ''.jpg'')"
    and exif: "info img ''exif'' = None"
    and wr: "\<not> unwritable env out"
  shows "transcode env dst_dir quality path w = (Inl TypeError, save_failed env out w)"
  using route
proof (elim disjE conjE)
  assume ext: "lower (snd (splitext (basename path))) \<in> set [''.jpg'', ''.jpeg'']"
    and out: "out = join dst_dir (basename path)"
  show ?thesis
    using wr unfolding out
    by (simp add: transcode_jpeg [OF ext op] exif save_jpeg_without_exif)
next
  assume ext: "lower (snd (splitext (basename path))) = ''.png''"
    and tr: "has_transparency img = Inr False"
    and out: "out = join dst_dir (fst (splitext (basename path)) @ ''.jpg'')"
  show ?thesis
    using wr unfolding out
    by (simp add: transcode_png_opaque [OF ext op tr] exif save_jpeg_without_exif)
qed

text \<open>
  Claim C5 says that every \<^verbatim>\<open>.png\<close> source whose transparency flag is false comes out
  as a JPEG under its base name with the extension \<^verbatim>\<open>.jpg\<close>, converted to RGB or kept
  as it is in mode L. The program does not get there for a source without an EXIF
  block: the PNG \<^verbatim>\<open>in/d.png\<close>, RGBA with a fully opaque alpha band and no metadata, is
  routed to the JPEG encoder with \<^verbatim>\<open>exif=None\<close>; the save raises \<^verbatim>\<open>TypeError\<close>, no
  \<^verbatim>\<open>out/d.jpg\<close> is left, and the exception ends the batch.
\<close>

theorem opaque_png_without_exif_raises:
  "image_open ex_env ex_world_plain ''in/d.png'' =
     Inr \<lparr>mode = ''RGBA'', alpha = [255, 255], colour = [8, 8], info = Map.empty\<rparr> \<and>
   has_transparency \<lparr>mode = ''RGBA'', alpha = [255, 255], colour = [8, 8], info = Map.empty\<rparr>
     = Inr False \<and>
   fst (process_file ex_env ''out'' 10 False 1 ''in/d.png'' ex_world_plain) = Inl TypeError \<and>
   fs (snd (process_file ex_env ''out'' 10 False 1 ''in/d.png'' ex_world_plain)) ''out/d.jpg'' = None \<and>
   saves (snd (process_file ex_env ''out'' 10 False 1 ''in/d.png'' ex_world_plain)) = []"
  by (simp add: path_defs fs_defs pipeline_defs ex_defs Let_def)

text \<open>
  Claim C6. A \<^verbatim>\<open>.png\<close> source whose transparency flag is true stays a PNG: the
  unconverted image is written under the source's base name with the extension
  \<^verbatim>\<open>.png\<close>, with \<^verbatim>\<open>optimize=True\<close> and \<^verbatim>\<open>compress_level=9\<close>. Where the PNG encoder is
  lossless on the image (decoding its output gives an image of the same mode with
  the same alpha band), the file that the loop body finally leaves as output stands
  under the source's base name and decodes to an image with the mode and the alpha
  band of the source, whether or not the size guard replaced the re-encoded file.
\<close>

theorem png_with_transparency_stays_png:
  assumes ext: "lower (snd (splitext (basename path))) = ''.png''"
    and op: "image_open env w path = Inr img"
    and tr: "has_transparency img = Inr True"
    and wr: "\<not> unwritable env (join dst_dir (fst (splitext (basename path)) @ ''.png''))"
    and enc: "png_encode env img True 9 = Inr bs"
    and lossless: "decode env bs = Some img'" "mode img' = mode img" "alpha img' = alpha img"
  shows "transcode env dst_dir quality path w =
           (Inr (join dst_dir (fst (splitext (basename path)) @ ''.png'')),
            w\<lparr>fs := (fs w)(realpath env (join dst_dir (fst (splitext (basename path)) @ ''.png''))
                         \<mapsto> \<lparr>content = bs, mtime = now env\<rparr>),
              saves := saves w @
                [SavePNG (join dst_dir (fst (splitext (basename path)) @ ''.png'')) img True 9]\<rparr>)
         \<and> (\<forall>out w'. process_file env dst_dir quality progress_cb total' path w = (Inr out, w')
               \<longrightarrow> (out = join dst_dir (fst (splitext (basename path)) @ ''.png'') \<or>
                    out = join dst_dir (basename path)) \<and>
                   (\<exists>img''. image_open env w' out = Inr img'' \<and>
                      mode img'' = mode img \<and> alpha img'' = alpha img))"
proof -
  let ?out = "join dst_dir (fst (splitext (basename path)) @ ''.png'')"
  let ?w1 = "w\<lparr>fs := (fs w)(realpath env ?out \<mapsto> \<lparr>content = bs, mtime = now env\<rparr>),
              saves := saves w @ [SavePNG ?out img True 9]\<rparr>"
  let ?same = "\<lambda>r. \<exists>img''. r = Inr img'' \<and> mode img'' = mode img \<and> alpha img'' = alpha img"
  have t: "transcode env dst_dir quality path w = (Inr ?out, ?w1)"
    using wr enc by (simp add: transcode_png_transparent [OF ext op tr] save_png_cases)
  have art: "?same (image_open env ?w1 ?out)"
    using lossless by (simp add: image_open_def)
  have src: "?same (image_open env ?w1 path)"
    using op lossless
    by (cases "realpath env path = realpath env ?out") (simp_all add: image_open_def)
  have "(out = ?out \<or> out = join dst_dir (basename path)) \<and> ?same (image_open env w' out)"
    if p: "process_file env dst_dir quality progress_cb total' path w = (Inr out, w')" for out w'
  proof -
    from process_file_Inr [OF p] t obtain w2 where
      g: "guard env dst_dir path ?out ?w1 = (Inr out, w2)" and
      w': "w' = call_progress_cb progress_cb (1, total', True) w2"
      by auto
    from guard_Inr [OF g] obtain src_f art_f where
      s: "fs ?w1 (realpath env path) = Some src_f" and
      a: "fs ?w1 (realpath env ?out) = Some art_f" and
      c: "if length (content src_f) < length (content art_f)
          then out = join dst_dir (basename path) \<and> fs w2 (realpath env out) = Some src_f
          else out = ?out \<and> w2 = ?w1"
      by blast
    show ?thesis
    proof (cases "length (content src_f) < length (content art_f)")
      case True
      with c have o: "out = join dst_dir (basename path)"
        and f: "fs w2 (realpath env out) = Some src_f"
        by auto
      have "image_open env w' out = image_open env ?w1 path"
        using f s w' by (simp add: image_open_def)
      with src o show ?thesis by simp
    next
      case False
      with c have o: "out = ?out" and "w2 = ?w1" by auto
      then have "image_open env w' out = image_open env ?w1 ?out"
        using w' by (simp add: image_open_def)
      with art o show ?thesis by simp
    qed
  qed
  with t show ?thesis by blast
qed

theorem png_with_transparency_stays_png_witness:
  "transcode ex_env ''out'' 10 ''in/c.png'' ex_world =
     (Inr ''out/c.png'',
      ex_world\<lparr>fs := (fs ex_world)(''out/c.png'' \<mapsto> \<lparr>content = [1, 255, 0, 8, 8], mtime = 100\<rparr>),
        saves := [SavePNG ''out/c.png''
                    \<lparr>mode = ''RGBA'', alpha = [255, 0], colour = [8, 8], info = Map.empty\<rparr> True 9]\<rparr>)
   \<and> fst (process_file ex_env ''out'' 10 True 3 ''in/c.png'' ex_world) = Inr ''out/c.png''
   \<and> (\<exists>img''. image_open ex_env (snd (process_file ex_env ''out'' 10 True 3 ''in/c.png'' ex_world))
                  ''out/c.png'' = Inr img'' \<and>
                mode img'' = ''RGBA'' \<and> alpha img'' = [255, 0])"
proof -
  let ?img = "\<lparr>mode = ''RGBA'', alpha = [255, 0], colour = [8, 8], info = Map.empty\<rparr>"
  have ext: "lower (snd (splitext (basename ''in/c.png''))) = ''.png''"
    by (simp add: path_defs)
  have op: "image_open ex_env ex_world ''in/c.png'' = Inr ?img"
    by (simp add: image_open_def ex_defs)
  have tr: "has_transparency ?img = Inr True"
    by (simp add: has_transparency_def)
  have wr: "\<not> unwritable ex_env (join ''out'' (fst (splitext (basename ''in/c.png'')) @ ''.png''))"
    by (simp add: ex_defs)
  have enc: "png_encode ex_env ?img True 9 = Inr [1, 255, 0, 8, 8]"
    by (simp add: ex_defs)
  have lossless: "decode ex_env [1, 255, 0, 8, 8] = Some ?img"
    by (simp add: ex_defs)
  have e: "fst (process_file ex_env ''out'' 10 True 3 ''in/c.png'' ex_world) = Inr ''out/c.png''"
    by (simp add: path_defs fs_defs pipeline_defs ex_defs Let_def)
  then have p: "process_file ex_env ''out'' 10 True 3 ''in/c.png'' ex_world =
      (Inr ''out/c.png'', snd (process_file ex_env ''out'' 10 True 3 ''in/c.png'' ex_world))"
    by (metis prod.collapse)
  note th = png_with_transparency_stays_png [OF ext op tr wr enc lossless refl refl,
      where quality = 10 and progress_cb = True and total' = 3]
  have j: "join ''out'' (fst (splitext (basename ''in/c.png'')) @ ''.png'') = ''out/c.png''"
    by (simp add: path_defs)
  have rp: "realpath ex_env ''out/c.png'' = ''out/c.png''"
    by (simp add: ex_defs)
  from th have t: "transcode ex_env ''out'' 10 ''in/c.png'' ex_world =
     (Inr ''out/c.png'',
      ex_world\<lparr>fs := (fs ex_world)(''out/c.png'' \<mapsto> \<lparr>content = [1, 255, 0, 8, 8], mtime = now ex_env\<rparr>),
        saves := saves ex_world @ [SavePNG ''out/c.png'' ?img True 9]\<rparr>)"
    unfolding j rp by (rule conjunct1)
  from th p have "\<exists>img''. image_open ex_env
      (snd (process_file ex_env ''out'' 10 True 3 ''in/c.png'' ex_world)) ''out/c.png'' = Inr img'' \<and>
      mode img'' = mode ?img \<and> alpha img'' = alpha ?img"
    by blast
  then have d: "\<exists>img''. image_open ex_env
      (snd (process_file ex_env ''out'' 10 True 3 ''in/c.png'' ex_world)) ''out/c.png'' = Inr img'' \<and>
      mode img'' = ''RGBA'' \<and> alpha img'' = [255, 0]"
    by simp
  have "now ex_env = 100" and "saves ex_world = []"
    by (simp_all add: ex_defs)
  with t e d show ?thesis
    by simp
qed

text \<open>
  Claim C10. For a \<^verbatim>\<open>.png\<close> source whose transparency flag is true the loop body does
  not depend on the quality: with any two quality values it returns the same output
  path and leaves the same world, so the same bytes at the same paths.
\<close>

theorem transparent_png_ignores_quality:
  assumes ext: "lower (snd (splitext (basename path))) = ''.png''"
    and op: "image_open env w path = Inr img"
    and tr: "has_transparency img = Inr True"
  shows "process_file env dst_dir q1 progress_cb total' path w =
         process_file env dst_dir q2 progress_cb total' path w"
  by (simp add: process_file_def transcode_png_transparent [OF ext op tr])

theorem transparent_png_ignores_quality_witness:
  "process_file ex_env ''out'' 10 True 3 ''in/c.png'' ex_world =
   process_file ex_env ''out'' 95 True 3 ''in/c.png'' ex_world
   \<and> fst (process_file ex_env ''out'' 95 True 3 ''in/c.png'' ex_world) = Inr ''out/c.png''"
proof -
  let ?img = "\<lparr>mode = ''RGBA'', alpha = [255, 0], colour = [8, 8], info = Map.empty\<rparr>"
  have ext: "lower (snd (splitext (basename ''in/c.png''))) = ''.png''"
    by (simp add: path_defs)
  have op: "image_open ex_env ex_world ''in/c.png'' = Inr ?img"
    by (simp add: image_open_def ex_defs)
  have tr: "has_transparency ?img = Inr True"
    by (simp add: has_transparency_def)
  have e: "fst (process_file ex_env ''out'' 95 True 3 ''in/c.png'' ex_world) = Inr ''out/c.png''"
    by (simp add: path_defs fs_defs pipeline_defs ex_defs Let_def)
  from transparent_png_ignores_quality [OF ext op tr, where dst_dir = "''out''" and ?q1.0 = 10 and ?q2.0 = 95
      and progress_cb = True and total' = 3] e
  show ?thesis by simp
qed

subsection \<open>The size guard\<close>

text \<open>
  Where the loop body returns, the output file is at most as large as the source file
  as the guard finds it, and is that file, bytes and modification time, where the
  artifact was the larger one. The guard leaves the source as it finds it. That
  source is the file as it was before the loop body ran only where the artifact was
  written to another file than the source.
\<close>

lemma output_bounded_by_source_at_guard:
  assumes p: "process_file env dst_dir quality progress_cb total' path w = (Inr out, w')"
  shows "\<exists>art w1 src_f art_f out_f.
           transcode env dst_dir quality path w = (Inr art, w1) \<and>
           fs w1 (realpath env path) = Some src_f \<and> fs w1 (realpath env art) = Some art_f \<and>
           fs w' (realpath env path) = Some src_f \<and> fs w' (realpath env out) = Some out_f \<and>
           length (content out_f) \<le> length (content src_f) \<and>
           (length (content src_f) < length (content art_f) \<longrightarrow> out_f = src_f) \<and>
           (realpath env art \<noteq> realpath env path \<longrightarrow> fs w (realpath env path) = Some src_f)"
proof -
  from process_file_Inr [OF p] obtain art w1 w2 where
    t: "transcode env dst_dir quality path w = (Inr art, w1)" and
    g: "guard env dst_dir path art w1 = (Inr out, w2)" and
    w': "w' = call_progress_cb progress_cb (1, total', True) w2"
    by blast
  from guard_Inr [OF g] obtain src_f art_f where
    s: "fs w1 (realpath env path) = Some src_f" and a: "fs w1 (realpath env art) = Some art_f" and
    s2: "fs w2 (realpath env path) = Some src_f" and
    c: "if length (content src_f) < length (content art_f)
        then out = join dst_dir (basename path) \<and> fs w2 (realpath env out) = Some src_f
        else out = art \<and> w2 = w1"
    by blast
  from transcode_Inr_frame [OF t]
  have fr: "realpath env art \<noteq> realpath env path \<longrightarrow> fs w (realpath env path) = Some src_f"
    using s by auto
  show ?thesis
  proof (cases "length (content src_f) < length (content art_f)")
    case True
    with c have "fs w2 (realpath env out) = Some src_f" by auto
    with t s a s2 w' fr True show ?thesis by simp
  next
    case False
    with c a have "fs w2 (realpath env out) = Some art_f" by auto
    with t s a s2 w' fr False show ?thesis by simp
  qed
qed

text \<open>
  An artifact that was written over the source itself is compared with itself, and the
  guard changes nothing.
\<close>

lemma guard_same_file:
  assumes "fs w (realpath env path) = Some f"
    and "realpath env out_path = realpath env path"
  shows "guard env dst_dir path out_path w = (Inr out_path, w)"
  using assms by (simp add: guard_def getsize_def)

text \<open>
  Claim C1 says that the output of every processed file is at most as large as its
  source, being the source's bytes where the encoding came out larger. The guard's
  comment says the same (\<^verbatim>\<open>If something went wrong and output is bigger, keep
  original\<close>). With the source folder as destination the program misses it for a JPEG:
  line 66 writes the artifact to the source's own path, line 76 then compares the file
  with itself, and the file of 5 bytes is left as the artifact of 8 bytes. The same
  happens when the destination is another spelling of the source folder.
\<close>

theorem in_place_jpeg_exceeds_source:
  "getsize ex_env ex_world ''in/a.jpg'' = Inr 5 \<and>
   fst (process_file ex_env ''in'' 95 False 1 ''in/a.jpg'' ex_world) = Inr ''in/a.jpg'' \<and>
   getsize ex_env (snd (process_file ex_env ''in'' 95 False 1 ''in/a.jpg'' ex_world)) ''in/a.jpg''
     = Inr 8 \<and>
   fs (snd (process_file ex_env ''in'' 95 False 1 ''in/a.jpg'' ex_world)) ''in/a.jpg''
     = Some \<lparr>content = [3, 7, 7, 7, 7, 7, 7, 7], mtime = 100\<rparr> \<and>
   fst (process_file ex_env ''./in'' 95 False 1 ''in/a.jpg'' ex_world) = Inr ''./in/a.jpg'' \<and>
   getsize ex_env (snd (process_file ex_env ''./in'' 95 False 1 ''in/a.jpg'' ex_world)) ''in/a.jpg''
     = Inr 8"
  by (simp add: path_defs fs_defs pipeline_defs ex_defs Let_def)

text \<open>
  When the artifact is larger than the source and the destination path under the
  source's file name is another file than the source, the guard removes the artifact
  if it stands under another name, going on when the removal fails, and copies the
  source, bytes and modification time, to that path.
\<close>

lemma guard_restores_original:
  assumes a: "fs w (realpath env out_path) = Some a" and s: "fs w (realpath env path) = Some s"
    and gt: "length (content s) < length (content a)"
    and ne: "realpath env path \<noteq> realpath env (join dst_dir (basename path))"
    and wr: "\<not> unwritable env (join dst_dir (basename path))"
  shows "guard env dst_dir path out_path w =
           (Inr (join dst_dir (basename path)),
            w\<lparr>fs := (if out_path \<noteq> join dst_dir (basename path) \<and> \<not> remove_fails env out_path
                      then (fs w)(realpath env out_path := None) else fs w)
                     (realpath env (join dst_dir (basename path)) \<mapsto> s)\<rparr>)"
proof -
  have pne: "realpath env path \<noteq> realpath env out_path"
    using a s gt by auto
  show ?thesis
    using a s gt ne wr pne
    by (simp add: guard_def getsize_def Let_def remove_ignoring_OSError_cases copy2_def)
qed

text \<open>
  When that path is the source file itself, the artifact is removed all the same, and
  \<^verbatim>\<open>shutil.copy2\<close> raises.
\<close>

lemma guard_fallback_onto_source_fails:
  assumes a: "fs w (realpath env out_path) = Some a" and s: "fs w (realpath env path) = Some s"
    and gt: "length (content s) < length (content a)"
    and same: "realpath env path = realpath env (join dst_dir (basename path))"
  shows "guard env dst_dir path out_path w =
           (Inl SameFileError,
            if out_path \<noteq> join dst_dir (basename path) \<and> \<not> remove_fails env out_path
            then w\<lparr>fs := (fs w)(realpath env out_path := None)\<rparr> else w)"
proof -
  let ?w = "if out_path \<noteq> join dst_dir (basename path) \<and> \<not> remove_fails env out_path
            then w\<lparr>fs := (fs w)(realpath env out_path := None)\<rparr> else w"
  have pne: "realpath env path \<noteq> realpath env out_path"
    using a s gt by auto
  have "fs ?w (realpath env path) = Some s"
    using s pne by simp
  then have "copy2 env path (join dst_dir (basename path)) ?w = (Inl SameFileError, ?w)"
    unfolding copy2_def by (simp add: same [symmetric])
  then show ?thesis
    by (simp add: guard_regress [OF a s gt])
qed

text \<open>
  Claim C7 says that whenever the artifact is larger than the source, the guard
  removes it and then copies the source to the destination under the source's own
  file name. With the source folder as destination the program removes the artifact
  and then fails: for the opaque PNG \<^verbatim>\<open>in/b.png\<close> of 5 bytes the artifact \<^verbatim>\<open>in/b.jpg\<close> has
  8 bytes, the guard removes it, the copy of \<^verbatim>\<open>in/b.png\<close> onto itself raises
  \<^verbatim>\<open>SameFileError\<close>, and the exception ends the batch. The same happens when the
  destination is another spelling of the source folder.
\<close>

theorem in_place_fallback_raises:
  "fst (transcode ex_env ''in'' 95 ''in/b.png'' ex_world) = Inr ''in/b.jpg'' \<and>
   getsize ex_env (snd (transcode ex_env ''in'' 95 ''in/b.png'' ex_world)) ''in/b.jpg'' = Inr 8 \<and>
   getsize ex_env (snd (transcode ex_env ''in'' 95 ''in/b.png'' ex_world)) ''in/b.png'' = Inr 5 \<and>
   fst (guard ex_env ''in'' ''in/b.png'' ''in/b.jpg''
          (snd (transcode ex_env ''in'' 95 ''in/b.png'' ex_world))) = Inl SameFileError \<and>
   fs (snd (guard ex_env ''in'' ''in/b.png'' ''in/b.jpg''
          (snd (transcode ex_env ''in'' 95 ''in/b.png'' ex_world)))) ''in/b.jpg'' = None \<and>
   fst (process_file ex_env ''in'' 95 False 1 ''in/b.png'' ex_world) = Inl SameFileError \<and>
   fst (process_file ex_env ''./in'' 95 False 1 ''in/b.png'' ex_world) = Inl SameFileError \<and>
   fst (compress_dir_with_progress ex_env ''in'' ''in'' 95 False ex_world) = Inl SameFileError"
  by (simp add: batch_defs path_defs fs_defs pipeline_defs ex_defs Let_def)

subsection \<open>Metadata on the JPEG path\<close>

text \<open>
  On both routes to the JPEG encoder a source with an EXIF block has the block and
  the entry \<^verbatim>\<open>icc_profile\<close> of its \<^verbatim>\<open>info\<close> handed on unchanged, the latter as \<^verbatim>\<open>None\<close> when
  there is none.
\<close>

lemma jpeg_route_with_exif:
  assumes op: "image_open env w path = Inr img"
    and route: "lower (snd (splitext (basename path))) \<in> set [''.jpg'', ''.jpeg''] \<and>
                  out = join dst_dir (basename path)
                \<or> lower (snd (splitext (basename path))) = ''.png'' \<and>
                  has_transparency img = Inr False \<and>
                  out = join dst_dir (fst (splitext (basename path)) @ ''.jpg'')"
    and exif: "info img ''exif'' = Some ex"
    and wr: "\<not> unwritable env out"
    and enc: "jpeg_encode env (lossy_image env img) quality True True ex
                (info img ''icc_profile'') = Inr bs"
  shows "transcode env dst_dir quality path w =
           (Inr out,
            w\<lparr>fs := (fs w)(realpath env out \<mapsto> \<lparr>content = bs, mtime = now env\<rparr>),
              saves := saves w @
                [SaveJPEG out (lossy_image env img) quality True True
                   (Some ex) (info img ''icc_profile'')]\<rparr>)"
  using route
proof (elim disjE conjE)
  assume ext: "lower (snd (splitext (basename path))) \<in> set [''.jpg'', ''.jpeg'']"
    and out: "out = join dst_dir (basename path)"
  show ?thesis
    using wr enc unfolding out
    by (simp add: transcode_jpeg [OF ext op] exif save_jpeg_with_exif)
next
  assume ext: "lower (snd (splitext (basename path))) = ''.png''"
    and tr: "has_transparency img = Inr False"
    and out: "out = join dst_dir (fst (splitext (basename path)) @ ''.jpg'')"
  show ?thesis
    using wr enc unfolding out
    by (simp add: transcode_png_opaque [OF ext op tr] exif save_jpeg_with_exif)
qed

text \<open>
  Claim C9 says that the EXIF block and the ICC profile are handed to the JPEG encoder
  when present, and that the absence of either is not an error. The first half holds,
  and so does the second for the ICC profile: \<^verbatim>\<open>in/b.png\<close>, with an EXIF block and no
  profile, is encoded with \<^verbatim>\<open>icc_profile=None\<close>. It fails for the EXIF block: lines 63
  to 74 hand \<^verbatim>\<open>exif=None\<close> to \<^verbatim>\<open>img.save\<close>, which raises \<^verbatim>\<open>TypeError\<close>. For the JPEG
  \<^verbatim>\<open>in/e.jpg\<close>, which has no EXIF block, nothing is written and the exception ends the
  batch.
\<close>

theorem jpeg_without_exif_raises:
  "image_open ex_env ex_world_plain ''in/e.jpg'' =
     Inr \<lparr>mode = ''RGB'', alpha = [], colour = [5, 5, 5, 5], info = Map.empty\<rparr> \<and>
   fst (process_file ex_env ''out'' 10 False 1 ''in/e.jpg'' ex_world_plain) = Inl TypeError \<and>
   fs (snd (process_file ex_env ''out'' 10 False 1 ''in/e.jpg'' ex_world_plain)) ''out/e.jpg'' = None \<and>
   saves (snd (process_file ex_env ''out'' 10 False 1 ''in/e.jpg'' ex_world_plain)) = [] \<and>
   fst (transcode ex_env ''out'' 10 ''in/b.png'' ex_world) = Inr ''out/b.jpg'' \<and>
   saves (snd (transcode ex_env ''out'' 10 ''in/b.png'' ex_world)) =
     [SaveJPEG ''out/b.jpg''
        \<lparr>mode = ''RGB'', alpha = [], colour = [8, 8], info = [''exif'' \<mapsto> [69, 120]]\<rparr>
        10 True True (Some [69, 120]) None] \<and>
   saves (snd (transcode ex_env ''out'' 10 ''in/a.jpg'' ex_world)) =
     [SaveJPEG ''out/a.jpg''
        \<lparr>mode = ''RGB'', alpha = [], colour = [5, 5, 5, 5],
           info = [''exif'' \<mapsto> [69, 120], ''icc_profile'' \<mapsto> [73]]\<rparr>
        10 True True (Some [69, 120]) (Some [73])]"
  by (simp add: path_defs fs_defs pipeline_defs ex_defs Let_def)

subsection \<open>A file that cannot be decoded\<close>

text \<open>
  Claim C3, as the program has it. The loop catches no exception: when a source file
  cannot be decoded, \<^verbatim>\<open>compress_dir_with_progress\<close> ends with that file's
  \<^verbatim>\<open>UnidentifiedImageError\<close>; the world is as the files before it left it, and
  neither that file nor any file after it is processed.
\<close>

theorem undecodable_file_aborts_batch:
  assumes nf: "\<not> isfile env w dst_dir"
    and it: "iter_images env w src_dir = Inr (pre @ path # rest)"
    and pre: "process_files env dst_dir quality progress_cb (length (pre @ path # rest)) pre []
                (call_progress_cb progress_cb (0, length (pre @ path # rest), False) w) = (Inr outs, w1)"
    and f: "fs w1 (realpath env path) = Some f"
    and bad: "decode env (content f) = None"
  shows "compress_dir_with_progress env src_dir dst_dir quality progress_cb w =
           (Inl UnidentifiedImageError, w1)"
proof -
  have op: "image_open env w1 path = Inl UnidentifiedImageError"
    using f bad by (simp add: image_open_def)
  have "process_files env dst_dir quality progress_cb (length (pre @ path # rest)) (pre @ path # rest) []
          (call_progress_cb progress_cb (0, length (pre @ path # rest), False) w)
        = (Inl UnidentifiedImageError, w1)"
    by (simp only: process_files_append pre prod.case sum.case process_files.simps
          process_file_open_fails [OF op])
  then show ?thesis
    using nf it by (simp add: compress_dir_with_progress_def Let_def)
qed

theorem undecodable_file_aborts_batch_witness:
  "compress_dir_with_progress ex_env ''in'' ''out'' 10 True ex_world_bad =
     (Inl UnidentifiedImageError,
      ex_world_bad
        \<lparr>fs := (fs ex_world_bad)(''out/a.jpg'' \<mapsto> \<lparr>content = [3, 7], mtime = 100\<rparr>),
          cb_calls := [(0, 3, False), (1, 3, True)],
          saves := [SaveJPEG ''out/a.jpg''
                      \<lparr>mode = ''RGB'', alpha = [], colour = [5, 5, 5, 5],
                         info = [''exif'' \<mapsto> [69, 120], ''icc_profile'' \<mapsto> [73]]\<rparr>
                      10 True True (Some [69, 120]) (Some [73])]\<rparr>)"
proof -
  let ?w1 = "ex_world_bad
        \<lparr>fs := (fs ex_world_bad)(''out/a.jpg'' \<mapsto> \<lparr>content = [3, 7], mtime = 100\<rparr>),
          cb_calls := [(0, 3, False), (1, 3, True)],
          saves := [SaveJPEG ''out/a.jpg''
                      \<lparr>mode = ''RGB'', alpha = [], colour = [5, 5, 5, 5],
                         info = [''exif'' \<mapsto> [69, 120], ''icc_profile'' \<mapsto> [73]]\<rparr>
                      10 True True (Some [69, 120]) (Some [73])]\<rparr>"
  have nf: "\<not> isfile ex_env ex_world_bad ''out''"
    by (simp add: isfile_def ex_defs)
  have it: "iter_images ex_env ex_world_bad ''in'' = Inr ([''in/a.jpg''] @ ''in/b.png'' # [''in/c.png''])"
    by (simp add: iter_images_def path_defs isfile_def ex_defs)
  have pre: "process_files ex_env ''out'' 10 True (length ([''in/a.jpg''] @ ''in/b.png'' # [''in/c.png'']))
      [''in/a.jpg''] []
      (call_progress_cb True (0, length ([''in/a.jpg''] @ ''in/b.png'' # [''in/c.png'']), False) ex_world_bad)
      = (Inr [''out/a.jpg''], ?w1)"
    by (simp add: path_defs fs_defs pipeline_defs ex_defs Let_def)
  have f: "fs ?w1 (realpath ex_env ''in/b.png'') = Some \<lparr>content = [0, 5], mtime = 2\<rparr>"
    by (simp add: ex_defs)
  have bad: "decode ex_env (content \<lparr>content = [0, 5], mtime = 2\<rparr>) = None"
    by (simp add: ex_defs)
  show ?thesis
    by (rule undecodable_file_aborts_batch [OF nf it pre f bad])
qed

text \<open>
  The claim that the batch goes on after such a file fails: in the folder whose second
  file does not decode, the first file is written, the batch ends with the error, and
  the third file, which decodes, is never written.
\<close>

theorem undecodable_file_skipped_counterexample:
  "iter_images ex_env ex_world_bad ''in'' = Inr [''in/a.jpg'', ''in/b.png'', ''in/c.png''] \<and>
   image_open ex_env ex_world_bad ''in/b.png'' = Inl UnidentifiedImageError \<and>
   image_open ex_env ex_world_bad ''in/c.png'' =
     Inr \<lparr>mode = ''RGBA'', alpha = [255, 0], colour = [8, 8], info = Map.empty\<rparr> \<and>
   fst (compress_dir_with_progress ex_env ''in'' ''out'' 10 True ex_world_bad) = Inl UnidentifiedImageError \<and>
   fs (snd (compress_dir_with_progress ex_env ''in'' ''out'' 10 True ex_world_bad)) ''out/a.jpg''
     = Some \<lparr>content = [3, 7], mtime = 100\<rparr> \<and>
   fs (snd (compress_dir_with_progress ex_env ''in'' ''out'' 10 True ex_world_bad)) ''out/c.png'' = None \<and>
   length (saves (snd (compress_dir_with_progress ex_env ''in'' ''out'' 10 True ex_world_bad))) = 1"
  by (simp add: batch_defs path_defs fs_defs pipeline_defs ex_defs Let_def)

text \<open>
  In the window the exception reaches \<^verbatim>\<open>run_worker\<close>, which hands Tk a function that
  is to show it; whether a box appears depends on when Tk runs that function.
\<close>

lemma run_worker_on_exception:
  "compress_dir_with_progress env src dst quality True w = (Inl e, w') \<Longrightarrow>
     run_worker env src dst quality w =
       (if box_sees_exc env then Failed e else ErrorBoxNameError, w')"
  by (simp add: run_worker_def)

subsection \<open>The progress callback\<close>

lemma gui_progress_steps:
  "0 < n \<Longrightarrow> v \<le> n \<Longrightarrow>
     fold (\<lambda>c v. gui_progress_cb v c) (replicate k (1, n, True)) v = min n (v + k)"
proof (induction k arbitrary: v)
  case 0
  then show ?case by simp
next
  case (Suc k)
  have "fold (\<lambda>c v. gui_progress_cb v c) (replicate (Suc k) (1, n, True)) v =
        fold (\<lambda>c v. gui_progress_cb v c) (replicate k (1, n, True)) (min n (v + 1))"
    using Suc.prems by simp
  also have "\<dots> = min n (min n (v + 1) + k)"
    using Suc.prems by (intro Suc.IH) simp_all
  also have "\<dots> = min n (v + Suc k)"
    by simp
  finally show ?case .
qed

lemma gui_progress_total:
  "fold (\<lambda>c v. gui_progress_cb v c) ((0, n, False) # replicate n (1, n, True)) v = n"
proof (cases "n = 0")
  case True
  then show ?thesis by simp
next
  case False
  then have "fold (\<lambda>c v. gui_progress_cb v c) ((0, n, False) # replicate n (1, n, True)) v =
             fold (\<lambda>c v. gui_progress_cb v c) (replicate n (1, n, True)) 0"
    by (simp del: fold_replicate)
  also have "\<dots> = min n (0 + n)"
    using False by (intro gui_progress_steps) simp_all
  finally show ?thesis by simp
qed

lemma compress_dir_with_progress_Inr:
  assumes c: "compress_dir_with_progress env src_dir dst_dir quality progress_cb w =
                (Inr (count, src_bytes, dst_bytes), w')"
  shows "\<exists>files outs. iter_images env w src_dir = Inr files \<and> count = length files \<and>
           process_files env dst_dir quality progress_cb (length files) files []
             (call_progress_cb progress_cb (0, length files, False) w) = (Inr outs, w')"
proof -
  have nf: "\<not> isfile env w dst_dir"
    using c by (auto simp add: compress_dir_with_progress_def)
  obtain files where it: "iter_images env w src_dir = Inr files"
    using c nf by (cases "iter_images env w src_dir") (auto simp add: compress_dir_with_progress_def)
  let ?w0 = "call_progress_cb progress_cb (0, length files, False) w"
  obtain r w1 where pf: "process_files env dst_dir quality progress_cb (length files) files [] ?w0 = (r, w1)"
    by (cases "process_files env dst_dir quality progress_cb (length files) files [] ?w0")
  from c nf it pf obtain outs where r: "r = Inr outs"
    by (cases r) (auto simp add: compress_dir_with_progress_def Let_def)
  from c nf it pf r have "count = length files \<and> w' = w1"
    by (auto simp add: compress_dir_with_progress_def Let_def split: sum.splits)
  with it pf r show ?thesis by auto
qed

text \<open>
  Claim C8, as the program has it. When a batch of \<open>count\<close> eligible files, run with a
  progress callback, ends without an exception, the callback has been invoked
  \<open>count + 1\<close> times: once with \<open>(0, count)\<close> before the first file, then once for
  each file with \<open>(1, count)\<close> and \<^verbatim>\<open>step=True\<close>; the window's progress value, stepped
  through these invocations, ends at \<open>count\<close>.
\<close>

theorem progress_callback_calls:
  assumes c: "compress_dir_with_progress env src_dir dst_dir quality True w =
                (Inr (count, src_bytes, dst_bytes), w')"
  shows "(\<exists>files. iter_images env w src_dir = Inr files \<and> count = length files) \<and>
         cb_calls w' = cb_calls w @ (0, count, False) # replicate count (1, count, True) \<and>
         fold (\<lambda>c v. gui_progress_cb v c) ((0, count, False) # replicate count (1, count, True)) v0 = count"
proof -
  from compress_dir_with_progress_Inr [OF c] obtain files outs where
    it: "iter_images env w src_dir = Inr files" and n: "count = length files" and
    pf: "process_files env dst_dir quality True (length files) files []
           (call_progress_cb True (0, length files, False) w) = (Inr outs, w')"
    by blast
  from process_files_cb_calls [OF pf] n
  have "cb_calls w' = cb_calls w @ (0, count, False) # replicate count (1, count, True)"
    by simp
  with it n show ?thesis
    by (simp only: gui_progress_total) simp
qed

theorem progress_callback_calls_witness:
  "fst (compress_dir_with_progress ex_env ''in'' ''out'' 95 True ex_world) = Inr (3, 15, 15) \<and>
   cb_calls (snd (compress_dir_with_progress ex_env ''in'' ''out'' 95 True ex_world)) =
     [(0, 3, False), (1, 3, True), (1, 3, True), (1, 3, True)] \<and>
   fold (\<lambda>c v. gui_progress_cb v c) [(0, 3, False), (1, 3, True), (1, 3, True), (1, 3, True)] 0 = 3"
proof -
  have e: "fst (compress_dir_with_progress ex_env ''in'' ''out'' 95 True ex_world) = Inr (3, 15, 15)"
    by code_simp
  then have "compress_dir_with_progress ex_env ''in'' ''out'' 95 True ex_world =
      (Inr (3, 15, 15), snd (compress_dir_with_progress ex_env ''in'' ''out'' 95 True ex_world))"
    by (metis prod.collapse)
  from progress_callback_calls [OF this, of 0] e show ?thesis
    by (simp add: ex_world_def numeral_3_eq_3)
qed

text \<open>
  Without the condition the claim fails: a batch of three eligible files whose second
  file does not decode invokes the callback twice, not four times.
\<close>

theorem progress_callback_calls_counterexample:
  "iter_images ex_env ex_world_bad ''in'' = Inr [''in/a.jpg'', ''in/b.png'', ''in/c.png''] \<and>
   cb_calls (snd (compress_dir_with_progress ex_env ''in'' ''out'' 10 True ex_world_bad)) =
     [(0, 3, False), (1, 3, True)]"
  by (simp add: batch_defs path_defs fs_defs pipeline_defs ex_defs Let_def)

subsection \<open>The quality range\<close>

text \<open>The start button of the window checks the range before anything is processed.\<close>

lemma run_rejects_quality_out_of_range:
  assumes "strip src_var \<noteq> []" and "isdir env (strip src_var)" and "strip dst_var \<noteq> []"
    and "quality < 1 \<or> quality > 95"
  shows "run env src_var dst_var (Some quality) w = (QualityOutOfRange, w)"
  using assms by (simp add: run_def Let_def)

lemma run_accepts_quality_in_range:
  assumes "strip src_var \<noteq> []" and "isdir env (strip src_var)" and "strip dst_var \<noteq> []"
    and "1 \<le> quality" and "quality \<le> 95"
  shows "run env src_var dst_var (Some quality) w =
           run_worker env (strip src_var) (strip dst_var) quality w"
  using assms by (simp add: run_def Let_def)

text \<open>
  Claim C2 says that a quality outside 1 to 95 is rejected before any file is
  processed, and that 1 and 95 are accepted. The window does so, as the two lemmas
  above show. The command line does not: \<^verbatim>\<open>run_cli\<close> processes the whole folder
  with the qualities 0, 96 and -1 and hands the value to the encoder, where the window
  rejects 0.
\<close>

theorem run_cli_accepts_quality_out_of_range:
  "fst (run_cli ex_env ''in'' ''out'' 0 ex_world) = Inr (3, 15, 9) \<and>
   fst (run_cli ex_env ''in'' ''out'' 96 ex_world) = Inr (3, 15, 15) \<and>
   fst (run_cli ex_env ''in'' ''out'' (- 1) ex_world) = Inr (3, 15, 9) \<and>
   saves (snd (run_cli ex_env ''in'' ''out'' 0 ex_world)) =
     [SaveJPEG ''out/a.jpg''
        \<lparr>mode = ''RGB'', alpha = [], colour = [5, 5, 5, 5],
           info = [''exif'' \<mapsto> [69, 120], ''icc_profile'' \<mapsto> [73]]\<rparr>
        0 True True (Some [69, 120]) (Some [73]),
      SaveJPEG ''out/b.jpg''
        \<lparr>mode = ''RGB'', alpha = [], colour = [8, 8], info = [''exif'' \<mapsto> [69, 120]]\<rparr>
        0 True True (Some [69, 120]) None,
      SavePNG ''out/c.png''
        \<lparr>mode = ''RGBA'', alpha = [255, 0], colour = [8, 8], info = Map.empty\<rparr> True 9] \<and>
   fst (run ex_env ''in'' ''out'' (Some 0) ex_world) = QualityOutOfRange"
  by (simp add: batch_defs path_defs fs_defs pipeline_defs ex_defs Let_def)

end
